theory Spec2Isabelle
  imports Complex_Main
begin

section \<open>The data-access layer of circus/files/datafile.py\<close>

text \<open>
  A shallow embedding of the class \<open>DataFile\<close>. Python values that the class stores
  without fixing their type are values of \<open>pyval\<close>; a raised exception is the \<open>Inl\<close>
  summand of a result. A finite Python float is the rational number that the double
  denotes, and a product of floats is rounded as IEEE 754 rounds it. Attribute names that
  start with an underscore in the source carry the prefix \<open>p_\<close> here.
\<close>

subsection \<open>Values, exceptions and external collaborators\<close>

datatype pyval = PNone | PBool bool | PInt int | PFloat rat | PStr string | PList "pyval list"

datatype error =
    SystemExit int
  | UnboundLocalError string
  | AttributeError string
  | TypeError
  | ValueError
  | OverflowError
  | NoSectionError string
  | NoOptionError string string

text \<open>\<open>except Exception\<close> catches every exception of the model but \<open>SystemExit\<close>.\<close>

fun is_Exception :: "error \<Rightarrow> bool" where
  "is_Exception (SystemExit _) = False"
| "is_Exception _ = True"

text \<open>
  The configuration resolver \<open>params\<close> is an external collaborator: its three typed
  getters are taken as given functions of section and key.
\<close>

record params =
  get :: "string \<Rightarrow> string \<Rightarrow> error + string"
  getint :: "string \<Rightarrow> string \<Rightarrow> error + int"
  getfloat :: "string \<Rightarrow> string \<Rightarrow> error + rat"

text \<open>
  Every interaction with a collaborator is recorded, in order, in a trace of events: a call
  of a getter of the resolver, or a call of one of the two printers with the format string
  and the arguments of the message.
\<close>

datatype event =
    Lookup string string string
  | print_error string "pyval list"
  | print_and_log string "pyval list" string

text \<open>The static attributes of a file format (the class attributes of \<open>DataFile\<close>).\<close>

record format =
  p_description :: string
  p_extension :: "string list option"
  p_parallel_write :: bool
  p_is_writable :: bool
  p_shape :: "int \<times> int"
  p_max_offset :: int

text \<open>
  An instance. \<open>attrs\<close> holds the attributes injected by name (the keyword overrides and
  the three resolved fields \<open>rate\<close>, \<open>N_e\<close>, \<open>N_tot\<close>); \<open>hasattr\<close> is membership in its
  domain.
\<close>

record datafile =
  file_name :: string
  is_empty :: bool
  params :: params
  attrs :: "string \<rightharpoonup> pyval"
  p_N_t :: pyval
  p_dist_peaks :: pyval
  p_template_shift :: pyval
  p_safety_time :: pyval
  shape :: "int \<times> int"
  max_offset :: int

subsection \<open>64-bit integers of numpy\<close>

definition int64_range :: "int \<Rightarrow> bool" where
  "int64_range x = (- (2 ^ 63) \<le> x \<and> x < 2 ^ 63)"

definition wrap64 :: "int \<Rightarrow> int" where
  "wrap64 x = (x + 2 ^ 63) mod 2 ^ 64 - 2 ^ 63"

text \<open>\<open>numpy.int64(x)\<close> of a Python integer: out of range is an \<open>OverflowError\<close>.\<close>

definition numpy_int64 :: "int \<Rightarrow> error + int" where
  "numpy_int64 x = (if int64_range x then Inr x else Inl OverflowError)"

text \<open>
  Floor division of two 64-bit integers: a zero divisor gives 0 (with a warning), and the
  quotient wraps.
\<close>

definition int64_floordiv :: "int \<Rightarrow> int \<Rightarrow> int" where
  "int64_floordiv a b = (if b = 0 then 0 else wrap64 (a div b))"

text \<open>
  \<open>numpy.mod(a, b)\<close> on Python integers within the 64-bit range: the remainder of the
  floor division, 0 for a zero divisor. Outside the range the outcome depends on the
  version of numpy; the model takes the \<open>OverflowError\<close> of the conversion.
\<close>

definition numpy_mod :: "int \<Rightarrow> int \<Rightarrow> error + int" where
  "numpy_mod a b =
     (if int64_range a \<and> int64_range b then Inr (if b = 0 then 0 else a mod b)
      else Inl OverflowError)"

subsection \<open>Chunk planning\<close>

text \<open>
  \<open>_get_chunk_size_\<close>: the given chunk size, or the configured one when none is given.
\<close>

definition get_chunk_size :: "datafile \<Rightarrow> int option \<Rightarrow> (error + int) \<times> event list" where
  "get_chunk_size self chunk_size =
     (case chunk_size of
        None \<Rightarrow> (getint (params self) ''data'' ''chunk_size'',
                 [Lookup ''getint'' ''data'' ''chunk_size''])
      | Some c \<Rightarrow> (Inr c, []))"

text \<open>
  \<open>analyze\<close>: the number of chunks and the length of the last incomplete one. The
  arithmetic is numpy's on \<open>int64\<close>: the chunk size is converted to that type, and every
  product, difference and sum wraps.
\<close>

definition analyze :: "datafile \<Rightarrow> int option \<Rightarrow> (error + int \<times> int) \<times> event list" where
  "analyze self chunk_size =
     (case get_chunk_size self chunk_size of
        (Inl e, tr) \<Rightarrow> (Inl e, tr)
      | (Inr c, tr) \<Rightarrow>
          (case numpy_int64 (fst (shape self)) of
             Inl e \<Rightarrow> (Inl e, tr)
           | Inr s \<Rightarrow>
               (case numpy_int64 c of
                  Inl e \<Rightarrow> (Inl e, tr)
                | Inr c \<Rightarrow>
                    (let nb_chunks = int64_floordiv s c;
                         last_chunk_len = wrap64 (s - wrap64 (nb_chunks * c));
                         nb_chunks = (if last_chunk_len > 0 then wrap64 (nb_chunks + 1)
                                      else nb_chunks)
                     in (Inr (nb_chunks, last_chunk_len), tr)))))"

subsection \<open>Library functions of Python used by the class\<close>

text \<open>
  \<open>str.rfind\<close> of a single character: the index of its last occurrence, or \<open>-1\<close>.
\<close>

fun rfind_from :: "char \<Rightarrow> string \<Rightarrow> int \<Rightarrow> int \<Rightarrow> int" where
  "rfind_from c [] i found = found"
| "rfind_from c (x # xs) i found = rfind_from c xs (i + 1) (if x = c then i else found)"

definition rfind :: "string \<Rightarrow> char \<Rightarrow> int" where
  "rfind p c = rfind_from c p 0 (- 1)"

text \<open>
  The loop of \<open>os.path.splitext\<close> (POSIX flavour) that skips the leading dots of the
  base name: it answers whether a character other than a dot stands between
  \<open>filenameIndex\<close> and \<open>dotIndex\<close>.
\<close>

function skip_dots :: "string \<Rightarrow> int \<Rightarrow> int \<Rightarrow> bool" where
  "skip_dots p filenameIndex dotIndex =
     (if filenameIndex < dotIndex
      then (if p ! nat filenameIndex \<noteq> CHR ''.'' then True
            else skip_dots p (filenameIndex + 1) dotIndex)
      else False)"
  by pat_completeness auto
termination
  by (relation "measure (\<lambda>(p, filenameIndex, dotIndex). nat (dotIndex - filenameIndex))") auto

definition splitext :: "string \<Rightarrow> string \<times> string" where
  "splitext p =
     (let sepIndex = rfind p CHR ''/'';
          dotIndex = rfind p CHR ''.''
      in if dotIndex > sepIndex \<and> skip_dots p (sepIndex + 1) dotIndex
         then (take (nat dotIndex) p, drop (nat dotIndex) p)
         else (p, []))"

text \<open>\<open>str.upper\<close> on the ASCII letters (the characters of the model are bytes).\<close>

definition upper_char :: "char \<Rightarrow> char" where
  "upper_char c =
     (case map_of (zip ''abcdefghijklmnopqrstuvwxyz'' ''ABCDEFGHIJKLMNOPQRSTUVWXYZ'') c of
        Some u \<Rightarrow> u
      | None \<Rightarrow> c)"

definition upper :: "string \<Rightarrow> string" where
  "upper s = map upper_char s"

text \<open>
  The operator \<open>%\<close> on a format string and its arguments. Only the conversions that
  occur in the file are modelled, \<open>%s\<close> and \<open>%%\<close>; the text of the message is kept as
  the pair of the format and the arguments. Too few or too many arguments are a
  \<open>TypeError\<close>.
\<close>

fun percent_check :: "string \<Rightarrow> pyval list \<Rightarrow> error option" where
  "percent_check [] args = (if args = [] then None else Some TypeError)"
| "percent_check [c] args =
     (if c = CHR ''%'' then Some ValueError else percent_check [] args)"
| "percent_check (c # d # cs) args =
     (if c = CHR ''%''
      then (if d = CHR ''%'' then percent_check cs args
            else if d = CHR ''s''
            then (case args of [] \<Rightarrow> Some TypeError | a # as \<Rightarrow> percent_check cs as)
            else Some ValueError)
      else percent_check (d # cs) args)"

definition percent :: "string \<Rightarrow> pyval list \<Rightarrow> error + string \<times> pyval list" where
  "percent fmt args =
     (case percent_check fmt args of Some e \<Rightarrow> Inl e | None \<Rightarrow> Inr (fmt, args))"

text \<open>Reading a local variable: a name that is not bound yet is an \<open>UnboundLocalError\<close>.\<close>

definition local_var :: "string \<Rightarrow> 'a option \<Rightarrow> error + 'a" where
  "local_var name binding =
     (case binding of None \<Rightarrow> Inl (UnboundLocalError name) | Some v \<Rightarrow> Inr v)"

text \<open>\<open>int(x)\<close> of a float truncates towards zero.\<close>

definition py_int :: "rat \<Rightarrow> int" where
  "py_int x = (if 0 \<le> x then \<lfloor>x\<rfloor> else \<lceil>x\<rceil>)"

text \<open>\<open>x // y\<close> on floats: the floor of the quotient, as a float.\<close>

definition float_floordiv :: "rat \<Rightarrow> rat \<Rightarrow> rat" where
  "float_floordiv x y = of_int \<lfloor>x / y\<rfloor>"

text \<open>
  Doubles. \<open>bit_length n\<close> is the number of binary digits of a positive integer, and
  \<open>ilog2 a\<close> the exponent \<open>e\<close> with \<open>2 ^ e \<le> a < 2 ^ (e + 1)\<close> of a positive rational.
\<close>

function bit_length :: "int \<Rightarrow> int" where
  "bit_length n = (if n \<le> 0 then 0 else 1 + bit_length (n div 2))"
  by pat_completeness auto
termination
  by (relation "measure nat") auto

declare bit_length.simps [simp del]

definition ilog2 :: "rat \<Rightarrow> int" where
  "ilog2 a =
     (case quotient_of a of (n, d) \<Rightarrow>
        (let k = bit_length n - bit_length d
         in if 2 powi k \<le> a then k else k - 1))"

text \<open>Rounding to the nearest integer, a tie going to the even one.\<close>

definition round_half_even :: "rat \<Rightarrow> int" where
  "round_half_even x =
     (let f = \<lfloor>x\<rfloor>; r = x - of_int f
      in if r < 1 / 2 then f else if 1 / 2 < r then f + 1 else if even f then f else f + 1)"

text \<open>The bound \<open>2 ^ 1024\<close>, from which on a rounded magnitude is an infinity.\<close>

definition double_overflow :: rat where
  "double_overflow = 179769313486231590772930519078902473361797697894230657273430081157732675805500963132708477322407536021120113879871393357658789768814416622492847430639474124377767893424865485276302219601246094119453082952085005768838150682342462881473913110540827237163350510684586298239947245938479716304835356329624224137216"

text \<open>
  \<open>round_double x\<close> is the double nearest to \<open>x\<close>, ties to even: a significand of 53
  bits, subnormals from the exponent \<open>-1074\<close> on, and \<open>None\<close> for an infinity.
\<close>

definition round_double :: "rat \<Rightarrow> rat option" where
  "round_double x =
     (if x = 0 then Some 0
      else (let a = \<bar>x\<bar>;
                q = max (ilog2 a - 52) (- 1074);
                y = of_int (round_half_even (a / 2 powi q)) * 2 powi q
            in if double_overflow \<le> y then None else Some (sgn x * y)))"

text \<open>The product of two finite floats.\<close>

definition fmul :: "rat \<Rightarrow> rat \<Rightarrow> rat option" where
  "fmul x y = round_double (x * y)"

text \<open>The literal \<open>1e-3\<close>: the double nearest to one thousandth.\<close>

definition lit_1e_3 :: rat where
  "lit_1e_3 = 1152921504606847 / 1152921504606846976"

text \<open>\<open>p * 1e-3\<close> for a float \<open>p\<close> that may be an infinity: an infinity stays one.\<close>

definition times_1e_3 :: "rat option \<Rightarrow> rat option" where
  "times_1e_3 p = (case p of None \<Rightarrow> None | Some x \<Rightarrow> fmul x lit_1e_3)"

text \<open>
  \<open>v * x\<close> for a float \<open>x\<close>: an integer on the left is converted to the nearest double
  first (an \<open>OverflowError\<close> when it is too large), a boolean counts as 0 or 1, anything
  else fails.
\<close>

fun mul_float :: "pyval \<Rightarrow> rat \<Rightarrow> error + rat option" where
  "mul_float (PFloat r) x = Inr (fmul r x)"
| "mul_float (PInt i) x =
     (case round_double (of_int i) of
        None \<Rightarrow> Inl OverflowError
      | Some r \<Rightarrow> Inr (fmul r x))"
| "mul_float (PBool b) x = Inr (fmul (if b then 1 else 0) x)"
| "mul_float _ x = Inl TypeError"

text \<open>\<open>int((v - 1) // 2)\<close> for the value \<open>v\<close> of the window length.\<close>

fun shift_of :: "pyval \<Rightarrow> error + int" where
  "shift_of (PInt n) = Inr ((n - 1) div 2)"
| "shift_of (PFloat x) = Inr (py_int (float_floordiv (x - 1) 2))"
| "shift_of (PBool b) = Inr (((if b then 1 else 0) - 1) div 2)"
| "shift_of _ = Inl TypeError"

subsection \<open>Construction\<close>

text \<open>\<open>is_master\<close>: the process of rank 0 of the communicator.\<close>

definition is_master :: "nat \<Rightarrow> bool" where
  "is_master rank = (rank = 0)"

text \<open>
  Lines 93 to 96. The message of line 95 reads the local variable \<open>extension\<close>, whose
  binding at that point is the argument \<open>extension\<close> of the model, and formats it with
  the description.
\<close>

definition check_empty ::
  "format \<Rightarrow> nat \<Rightarrow> bool \<Rightarrow> string option \<Rightarrow> (error + unit) \<times> event list" where
  "check_empty cls rank is_empty' extension =
     (if is_empty' \<and> \<not> p_is_writable cls
      then (if is_master rank
            then (case local_var ''extension'' extension of
                    Inl e \<Rightarrow> (Inl e, [])
                  | Inr ext \<Rightarrow>
                      (case percent ''The file %s is empty and non writable...''
                              [PStr ext, PStr (p_description cls)] of
                         Inl e \<Rightarrow> (Inl e, [])
                       | Inr (f, a) \<Rightarrow> (Inl (SystemExit 0), [print_error f a])))
            else (Inl (SystemExit 0), []))
      else (Inr (), []))"

text \<open>Lines 100 to 104: the extension is looked for among the listed ones and their upper-case forms.\<close>

definition check_extension ::
  "format \<Rightarrow> nat \<Rightarrow> string \<Rightarrow> (error + unit) \<times> event list" where
  "check_extension cls rank extension =
     (case p_extension cls of
        None \<Rightarrow> (Inr (), [])
      | Some exts \<Rightarrow>
          (if extension \<notin> set (exts @ map upper exts)
           then (if is_master rank
                 then (case percent ''The extension %s is not valid for a %s file''
                              [PStr extension, PStr (p_description cls)] of
                         Inl e \<Rightarrow> (Inl e, [])
                       | Inr (f, a) \<Rightarrow> (Inl (SystemExit 0), [print_error f a]))
                 else (Inl (SystemExit 0), []))
           else (Inr (), [])))"

text \<open>
  \<open>self.__setattr__(key, value)\<close>. The read-only properties of the class reject the
  assignment; the four cache attributes are fields of the record; every other name is an
  entry of \<open>attrs\<close>.
\<close>

definition properties :: "string list" where
  "properties = [''N_t'', ''dist_peaks'', ''template_shift'', ''shape'', ''max_offset'',
                 ''is_master'']"

definition setattr :: "datafile \<Rightarrow> string \<Rightarrow> pyval \<Rightarrow> error + datafile" where
  "setattr self key v =
     (if key \<in> set properties then Inl (AttributeError key)
      else if key = ''_N_t'' then Inr (self\<lparr>p_N_t := v\<rparr>)
      else if key = ''_dist_peaks'' then Inr (self\<lparr>p_dist_peaks := v\<rparr>)
      else if key = ''_template_shift'' then Inr (self\<lparr>p_template_shift := v\<rparr>)
      else if key = ''_safety_time'' then Inr (self\<lparr>p_safety_time := v\<rparr>)
      else Inr (self\<lparr>attrs := (attrs self)(key \<mapsto> v)\<rparr>))"

text \<open>
  The names that the class and its constructor bind themselves, kept here as typed fields,
  class attributes and methods. An override of one of them is outside the model.
\<close>

definition reserved :: "string list" where
  "reserved = [''file_name'', ''is_empty'', ''params'', ''_description'', ''_extension'',
               ''_parallel_write'', ''_is_writable'', ''_requiered_fields'', ''_shape'',
               ''_max_offset'', ''get_safety_time'', ''_get_info_'', ''_get_chunk_size_'',
               ''get_data'', ''get_snippet'', ''set_data'', ''analyze'', ''open'', ''close'',
               ''allocate'']"

text \<open>Lines 110 and 111: the keyword overrides, in their order.\<close>

fun set_kwargs :: "datafile \<Rightarrow> (string \<times> pyval) list \<Rightarrow> error + datafile" where
  "set_kwargs self [] = Inr self"
| "set_kwargs self ((key, v) # kwargs) =
     (case setattr self key v of
        Inl e \<Rightarrow> Inl e
      | Inr self' \<Rightarrow> set_kwargs self' kwargs)"

text \<open>\<open>hasattr(self, key)\<close> for a data attribute.\<close>

definition hasattr :: "datafile \<Rightarrow> string \<Rightarrow> bool" where
  "hasattr self key = (attrs self key \<noteq> None)"

definition getattr :: "datafile \<Rightarrow> string \<Rightarrow> error + pyval" where
  "getattr self key =
     (case attrs self key of None \<Rightarrow> Inl (AttributeError key) | Some v \<Rightarrow> Inr v)"

text \<open>Lines 106 to 108: each core field with its section, its option and its type.\<close>

definition requiered_values :: "(string \<times> string \<times> string \<times> string) list" where
  "requiered_values =
     [(''rate'', ''data'', ''sampling_rate'', ''float''),
      (''N_e'', ''data'', ''N_e'', ''int''),
      (''N_tot'', ''data'', ''N_total'', ''int'')]"

text \<open>
  Lines 115 to 118: the typed lookup. The local variable \<open>to_be_set\<close> keeps its binding
  when the type is neither \<open>int\<close> nor \<open>float\<close>.
\<close>

definition lookup_typed ::
  "params \<Rightarrow> string \<Rightarrow> string \<Rightarrow> string \<Rightarrow> pyval option
     \<Rightarrow> (error + pyval option) \<times> event list" where
  "lookup_typed p sec opt ty to_be_set =
     (if ty = ''int''
      then (case getint p sec opt of
              Inl e \<Rightarrow> (Inl e, [Lookup ''getint'' sec opt])
            | Inr i \<Rightarrow>
                (case numpy_int64 i of
                   Inl e \<Rightarrow> (Inl e, [Lookup ''getint'' sec opt])
                 | Inr j \<Rightarrow> (Inr (Some (PInt j)), [Lookup ''getint'' sec opt])))
      else if ty = ''float''
      then (case getfloat p sec opt of
              Inl e \<Rightarrow> (Inl e, [Lookup ''getfloat'' sec opt])
            | Inr x \<Rightarrow> (Inr (Some (PFloat x)), [Lookup ''getfloat'' sec opt]))
      else (Inr to_be_set, []))"

text \<open>Lines 114 to 124: one round of the loop over the core fields.\<close>

definition resolve_one ::
  "nat \<Rightarrow> string \<times> string \<times> string \<times> string \<Rightarrow> pyval option \<Rightarrow> datafile
     \<Rightarrow> (error + datafile \<times> pyval option) \<times> event list" where
  "resolve_one rank entry to_be_set self =
     (case entry of (key, sec, opt, ty) \<Rightarrow>
        (if \<not> hasattr self key
         then (case lookup_typed (params self) sec opt ty to_be_set of
                 (Inl e, tr) \<Rightarrow> (Inl e, tr)
               | (Inr to_be_set', tr) \<Rightarrow>
                   (case local_var ''to_be_set'' to_be_set' of
                      Inl e \<Rightarrow> (Inl e, tr)
                    | Inr v \<Rightarrow>
                        (case setattr self key v of
                           Inl e \<Rightarrow> (Inl e, tr)
                         | Inr self' \<Rightarrow>
                             (if is_master rank
                              then (case percent
                                      ''%s is read from the params with a value of %s''
                                      [PStr key, v] of
                                      Inl e \<Rightarrow> (Inl e, tr)
                                    | Inr (f, a) \<Rightarrow>
                                        (Inr (self', to_be_set'),
                                         tr @ [print_and_log f a ''debug'']))
                              else (Inr (self', to_be_set'), tr)))))
         else (if is_master rank
               then (case percent ''%s is infered from the data file with a value of %s''
                            [PStr key, PList [PStr sec, PStr opt, PStr ty]] of
                       Inl e \<Rightarrow> (Inl e, [])
                     | Inr (f, a) \<Rightarrow> (Inr (self, to_be_set), [print_and_log f a ''debug'']))
               else (Inr (self, to_be_set), []))))"

fun resolve ::
  "nat \<Rightarrow> (string \<times> string \<times> string \<times> string) list \<Rightarrow> pyval option \<Rightarrow> datafile
     \<Rightarrow> (error + datafile) \<times> event list" where
  "resolve rank [] to_be_set self = (Inr self, [])"
| "resolve rank (entry # entries) to_be_set self =
     (case resolve_one rank entry to_be_set self of
        (Inl e, tr) \<Rightarrow> (Inl e, tr)
      | (Inr (self', to_be_set'), tr) \<Rightarrow>
          (case resolve rank entries to_be_set' self' of
             (r, tr') \<Rightarrow> (r, tr @ tr')))"

text \<open>\<open>_get_info_\<close> of the base class does nothing.\<close>

definition get_info :: "datafile \<Rightarrow> datafile" where
  "get_info self = self"

text \<open>
  Lines 89 to 91: the instance with the three arguments stored, before any attribute is
  injected. The shape and the maximal offset are those of the class until a backend sets
  them.
\<close>

definition new_self :: "format \<Rightarrow> string \<Rightarrow> params \<Rightarrow> bool \<Rightarrow> datafile" where
  "new_self cls file_name' params' is_empty' =
     \<lparr>file_name = file_name', is_empty = is_empty', params = params',
      attrs = Map.empty, p_N_t = PNone, p_dist_peaks = PNone,
      p_template_shift = PNone, p_safety_time = PNone,
      shape = p_shape cls, max_offset = p_max_offset cls\<rparr>"

text \<open>Lines 127 to 132: the caches are cleared and the creation is logged by the master.\<close>

definition clear_caches :: "datafile \<Rightarrow> datafile" where
  "clear_caches self =
     self\<lparr>p_N_t := PNone, p_dist_peaks := PNone, p_template_shift := PNone,
          p_safety_time := PNone\<rparr>"

definition log_created :: "format \<Rightarrow> nat \<Rightarrow> datafile \<Rightarrow> error + event list" where
  "log_created cls rank self =
     (if is_master rank
      then (case percent ''The datafile %s with type %s has been created''
                   [PStr (file_name self), PStr (p_description cls)] of
              Inl e \<Rightarrow> Inl e
            | Inr (f, a) \<Rightarrow> Inr [print_and_log f a ''debug''])
      else Inr [])"

text \<open>
  \<open>__init__\<close>. The result is the instance or the exception that ends the construction,
  with the trace of the lookups and messages up to that point. At line 95 the local
  variable \<open>extension\<close> has no binding: it is assigned at line 98.
\<close>

definition init ::
  "format \<Rightarrow> nat \<Rightarrow> string \<Rightarrow> params \<Rightarrow> bool \<Rightarrow> (string \<times> pyval) list
     \<Rightarrow> (error + datafile) \<times> event list" where
  "init cls rank file_name' params' is_empty' kwargs =
     (let self = new_self cls file_name' params' is_empty'
      in case check_empty cls rank is_empty' None of
           (Inl e, tr) \<Rightarrow> (Inl e, tr)
         | (Inr _, tr0) \<Rightarrow>
             (case splitext file_name' of (f_next, extension) \<Rightarrow>
                (case check_extension cls rank extension of
                   (Inl e, tr) \<Rightarrow> (Inl e, tr0 @ tr)
                 | (Inr _, tr1) \<Rightarrow>
                     (case set_kwargs self kwargs of
                        Inl e \<Rightarrow> (Inl e, tr0 @ tr1)
                      | Inr self1 \<Rightarrow>
                          (case resolve rank requiered_values None self1 of
                             (Inl e, tr2) \<Rightarrow> (Inl e, tr0 @ tr1 @ tr2)
                           | (Inr self2, tr2) \<Rightarrow>
                               (let self3 = clear_caches self2
                                in case log_created cls rank self3 of
                                     Inl e \<Rightarrow> (Inl e, tr0 @ tr1 @ tr2)
                                   | Inr tr3 \<Rightarrow>
                                       (Inr (if \<not> is_empty self3 then get_info self3
                                             else self3),
                                        tr0 @ tr1 @ tr2 @ tr3)))))))"

subsection \<open>Derived properties\<close>

text \<open>
  The window duration in milliseconds: the key of the section \<open>detection\<close>, and on any
  \<open>Exception\<close> the key of the section \<open>data\<close> (lines 142 to 145 and 169 to 172).
\<close>

definition lookup_N_t :: "params \<Rightarrow> (error + rat) \<times> event list" where
  "lookup_N_t p =
     (case getfloat p ''detection'' ''N_t'' of
        Inr x \<Rightarrow> (Inr x, [Lookup ''getfloat'' ''detection'' ''N_t''])
      | Inl e \<Rightarrow>
          (if is_Exception e
           then (getfloat p ''data'' ''N_t'',
                 [Lookup ''getfloat'' ''detection'' ''N_t'', Lookup ''getfloat'' ''data'' ''N_t''])
           else (Inl e, [Lookup ''getfloat'' ''detection'' ''N_t''])))"

text \<open>
  The property \<open>N_t\<close>. The duration is stored in \<open>_N_t\<close> before the conversion, so it stays
  there when the conversion raises; \<open>int\<close> of an infinity is an \<open>OverflowError\<close>. The
  truncated product is stored before \<open>numpy.mod\<close> tests its parity. The final
  \<open>return self.N_t\<close> reads the attribute that has just been set.
\<close>

definition N_t :: "datafile \<Rightarrow> (error + pyval) \<times> datafile \<times> event list" where
  "N_t self =
     (if p_N_t self \<noteq> PNone then (Inr (p_N_t self), self, [])
      else (case lookup_N_t (params self) of
              (Inl e, tr) \<Rightarrow> (Inl e, self, tr)
            | (Inr d, tr) \<Rightarrow>
                (let self1 = self\<lparr>p_N_t := PFloat d\<rparr> in
                 case getattr self1 ''rate'' of
                   Inl e \<Rightarrow> (Inl e, self1, tr)
                 | Inr rate \<Rightarrow>
                     (case mul_float rate d of
                        Inl e \<Rightarrow> (Inl e, self1, tr)
                      | Inr p \<Rightarrow>
                          (case times_1e_3 p of
                             None \<Rightarrow> (Inl OverflowError, self1, tr)
                           | Some x \<Rightarrow>
                               (let self2 = self1\<lparr>p_N_t := PInt (py_int x)\<rparr> in
                                case numpy_mod (py_int x) 2 of
                                  Inl e \<Rightarrow> (Inl e, self2, tr)
                                | Inr m \<Rightarrow>
                                    (let self3 = (if m = 0
                                                  then self2\<lparr>p_N_t := PInt (py_int x + 1)\<rparr>
                                                  else self2)
                                     in (Inr (p_N_t self3), self3, tr))))))))"

definition dist_peaks :: "datafile \<Rightarrow> (error + pyval) \<times> datafile \<times> event list" where
  "dist_peaks self = N_t self"

definition template_shift :: "datafile \<Rightarrow> (error + pyval) \<times> datafile \<times> event list" where
  "template_shift self =
     (if p_template_shift self \<noteq> PNone then (Inr (p_template_shift self), self, [])
      else (case N_t self of
              (Inl e, self1, tr) \<Rightarrow> (Inl e, self1, tr)
            | (Inr v, self1, tr) \<Rightarrow>
                (case shift_of v of
                   Inl e \<Rightarrow> (Inl e, self1, tr)
                 | Inr k \<Rightarrow> (Inr (PInt k), self1, tr))))"


subsection \<open>Chunked access\<close>

text \<open>\<open>get_data\<close> of the base class returns nothing; a backend overrides it.\<close>

definition get_data ::
  "datafile \<Rightarrow> int \<Rightarrow> int option \<Rightarrow> int \<times> int \<Rightarrow> int list option \<Rightarrow> pyval" where
  "get_data self idx chunk_size padding nodes = PNone"

text \<open>
  \<open>get_snippet\<close> calls the method \<open>get_data\<close> of the instance, which is the one of the
  backend: the argument \<open>backend_get_data\<close>.
\<close>

definition get_snippet ::
  "(datafile \<Rightarrow> int \<Rightarrow> int option \<Rightarrow> int \<times> int \<Rightarrow> int list option \<Rightarrow> 'a)
     \<Rightarrow> datafile \<Rightarrow> int \<Rightarrow> int \<Rightarrow> int list option \<Rightarrow> 'a" where
  "get_snippet backend_get_data self time len nodes =
     backend_get_data self 0 (Some len) (time, time) nodes"

subsection \<open>Concrete instances\<close>

text \<open>
  A resolver with a sampling rate of 20 kHz, four channels out of eight, chunks of 300
  samples and a window duration \<open>d\<close> that only the section \<open>data\<close> provides; the safety
  time is \<open>auto\<close> for the clustering and \<open>2.5\<close> for the fitting.
\<close>

definition demo_params :: "rat \<Rightarrow> params" where
  "demo_params d =
     \<lparr>get = (\<lambda>sec key.
         if key = ''safety_time''
         then (if sec = ''clustering'' then Inr ''auto''
               else if sec = ''fitting'' then Inr ''2.5''
               else Inl (NoSectionError sec))
         else Inl (NoOptionError key sec)),
      getint = (\<lambda>sec key.
         if sec = ''data'' \<and> key = ''N_e'' then Inr 4
         else if sec = ''data'' \<and> key = ''N_total'' then Inr 8
         else if sec = ''data'' \<and> key = ''chunk_size'' then Inr 300
         else Inl (NoOptionError key sec)),
      getfloat = (\<lambda>sec key.
         if sec = ''data'' \<and> key = ''sampling_rate'' then Inr 20000
         else if sec = ''data'' \<and> key = ''N_t'' then Inr d
         else Inl (NoOptionError key sec))\<rparr>"

text \<open>A resolver without any entry.\<close>

definition empty_params :: params where
  "empty_params =
     \<lparr>get = (\<lambda>sec key. Inl (NoOptionError key sec)),
      getint = (\<lambda>sec key. Inl (NoOptionError key sec)),
      getfloat = (\<lambda>sec key. Inl (NoOptionError key sec))\<rparr>"

text \<open>A writable format and a read-only one, both for the extension \<open>.dat\<close>.\<close>

definition demo_format :: format where
  "demo_format =
     \<lparr>p_description = ''raw_binary'', p_extension = Some [''.dat''], p_parallel_write = True,
      p_is_writable = True, p_shape = (0, 0), p_max_offset = 0\<rparr>"

definition readonly_format :: format where
  "readonly_format =
     \<lparr>p_description = ''mydatafile'', p_extension = Some [''.dat''], p_parallel_write = False,
      p_is_writable = False, p_shape = (0, 0), p_max_offset = 0\<rparr>"

text \<open>An instance over a recording of 1000 samples, with its rate resolved.\<close>

definition demo_file :: "rat \<Rightarrow> datafile" where
  "demo_file d =
     \<lparr>file_name = ''rec.dat'', is_empty = False, params = demo_params d,
      attrs = [''rate'' \<mapsto> PFloat 20000, ''N_e'' \<mapsto> PInt 4, ''N_tot'' \<mapsto> PInt 8],
      p_N_t = PNone, p_dist_peaks = PNone, p_template_shift = PNone, p_safety_time = PNone,
      shape = (1000, 8), max_offset = 1000\<rparr>"

text \<open>The same instance with another sampling rate.\<close>

definition demo_file_at :: "rat \<Rightarrow> rat \<Rightarrow> datafile" where
  "demo_file_at rate d = (demo_file d)\<lparr>attrs := (attrs (demo_file d))(''rate'' \<mapsto> PFloat rate)\<rparr>"

text \<open>
  The float that a decimal literal denotes: the nearest double (the literals of the
  instances are far from the overflow).
\<close>

definition double :: "rat \<Rightarrow> rat" where
  "double q = (case round_double q of Some x \<Rightarrow> x | None \<Rightarrow> 0)"



section \<open>Properties\<close>

subsection \<open>64-bit arithmetic of the chunk plan\<close>

lemma wrap64_id: "int64_range x \<Longrightarrow> wrap64 x = x"
  by (simp add: wrap64_def int64_range_def)

lemma wrap64_diff_wrap64: "wrap64 (a - wrap64 b) = wrap64 (a - b)"
proof -
  have "(a - ((b + k) mod m - k) + k) mod m = (a - b + k) mod m" for k m :: int
  proof -
    have "(a - ((b + k) mod m - k) + k) mod m = (a + 2 * k - (b + k) mod m) mod m"
      by (simp add: algebra_simps)
    also have "\<dots> = (a + 2 * k - (b + k)) mod m"
      by (simp only: mod_diff_right_eq)
    finally show ?thesis by (simp add: algebra_simps)
  qed
  then show ?thesis by (simp only: wrap64_def)
qed

lemma quotient_range:
  assumes "0 < c" "int64_range s"
  shows "int64_range (s div c)"
proof (cases "0 \<le> s")
  case True
  then have "0 \<le> s div c" "s div c \<le> s"
    using assms(1) zdiv_mono2 [of s 1 c] by (simp_all add: pos_imp_zdiv_nonneg_iff)
  then show ?thesis using assms(2) by (simp add: int64_range_def)
next
  case False
  then have "s div c < 0" using assms(1) by (simp add: div_neg_pos_less0)
  moreover have "s \<le> s div c"
    using False assms(1) zdiv_mono2_neg [of s 1 c] by simp
  ultimately show ?thesis using assms(2) by (simp add: int64_range_def)
qed

lemma quotient_succ_range:
  assumes "0 < c" "int64_range s" "0 < s - s div c * c"
  shows "int64_range (s div c + 1)"
proof (cases "0 \<le> s")
  case True
  have "c \<noteq> 1" using assms(3) by auto
  then have "2 \<le> c" using assms(1) by simp
  then have "s div c \<le> s div 2" using True zdiv_mono2 [of s 2 c] by simp
  moreover have "0 \<le> s div c" using True assms(1) by (simp add: pos_imp_zdiv_nonneg_iff)
  ultimately show ?thesis using assms(2) True by (simp add: int64_range_def)
next
  case False
  then have "s div c < 0" using assms(1) by (simp add: div_neg_pos_less0)
  moreover have "int64_range (s div c)" using assms by (simp add: quotient_range)
  ultimately show ?thesis by (simp add: int64_range_def)
qed

lemma remainder_range:
  assumes "0 < c" "int64_range c"
  shows "int64_range (s - s div c * c)" "0 \<le> s - s div c * c" "s - s div c * c < c"
proof -
  have eq: "s - s div c * c = s mod c" by (simp add: minus_div_mult_eq_mod)
  show "0 \<le> s - s div c * c" "s - s div c * c < c" using assms(1) by (simp_all add: eq)
  then show "int64_range (s - s div c * c)" using assms(2) by (simp add: int64_range_def)
qed

lemma get_chunk_size_given: "get_chunk_size self (Some c) = (Inr c, [])"
  by (simp add: get_chunk_size_def)

lemma get_chunk_size_configured:
  "get_chunk_size self None
     = (getint (params self) ''data'' ''chunk_size'', [Lookup ''getint'' ''data'' ''chunk_size''])"
  by (simp add: get_chunk_size_def)

lemma analyze_plan:
  assumes "get_chunk_size self chunk_size = (Inr c, tr)"
    and "0 < c" and "int64_range c" and "int64_range (fst (shape self))"
    and "q = fst (shape self) div c" and "m = fst (shape self) - q * c"
  shows "analyze self chunk_size = (Inr (if 0 < m then (q + 1, m) else (q, 0)), tr)"
proof -
  define s where "s = fst (shape self)"
  have qs: "q = s div c" and ms: "m = s - q * c" using assms(5,6) by (simp_all add: s_def)
  have q: "int64_floordiv s c = q"
    using assms(2,4) by (simp add: int64_floordiv_def qs s_def wrap64_id quotient_range)
  have m_bounds: "0 \<le> m" "m < c" "int64_range m"
    using remainder_range [OF assms(2,3), of s] by (simp_all add: ms qs)
  have m: "wrap64 (s - wrap64 (q * c)) = m"
    by (simp add: wrap64_diff_wrap64 wrap64_id m_bounds ms [symmetric])
  have q1: "0 < m \<Longrightarrow> wrap64 (q + 1) = q + 1"
    using quotient_succ_range [OF assms(2), of s] assms(4)
    by (simp add: wrap64_id ms qs s_def)
  have "analyze self chunk_size = (Inr (if 0 < m then (q + 1, m) else (q, m)), tr)"
    using assms(1,3,4) by (simp add: analyze_def numpy_int64_def s_def [symmetric] q m q1 Let_def)
  moreover have "\<not> 0 < m \<Longrightarrow> m = 0" using m_bounds by simp
  ultimately show ?thesis by auto
qed

text \<open>
  C1, as the code has it. For a positive chunk size and a number of samples that both fit
  the 64-bit integers of numpy, \<open>analyze\<close> with that chunk size, given or configured,
  returns the pair with \<open>whole = shape[0] // chunk_size\<close> and
  \<open>remainder = shape[0] - whole * chunk_size\<close>: \<open>(whole + 1, remainder)\<close> when the
  remainder is positive and \<open>(whole, 0)\<close> otherwise. The chunks cover the samples, and one
  chunk less does not. No wrap-around occurs.
\<close>

theorem analyze_chunk_plan:
  assumes "0 < c" and "int64_range c" and "int64_range (fst (shape self))"
  shows "\<exists>n r. analyze self (Some c) = (Inr (n, r), [])
           \<and> (getint (params self) ''data'' ''chunk_size'' = Inr c \<longrightarrow>
                analyze self None = (Inr (n, r), [Lookup ''getint'' ''data'' ''chunk_size'']))
           \<and> (n, r) = (let whole = fst (shape self) div c;
                           remainder = fst (shape self) - whole * c
                       in if remainder > 0 then (whole + 1, remainder) else (whole, 0))
           \<and> fst (shape self) \<le> n * c \<and> (n - 1) * c < fst (shape self)"
proof -
  define s where "s = fst (shape self)"
  define q where "q = s div c"
  define m where "m = s - q * c"
  define n where "n = (if 0 < m then q + 1 else q)"
  define r where "r = (if 0 < m then m else 0)"
  have qm: "q = fst (shape self) div c" "m = fst (shape self) - q * c"
    by (simp_all add: q_def m_def s_def)
  have given: "analyze self (Some c) = (Inr (n, r), [])"
    unfolding n_def r_def using analyze_plan [OF get_chunk_size_given assms qm]
    by (cases "0 < m") simp_all
  have configured: "analyze self None = (Inr (n, r), [Lookup ''getint'' ''data'' ''chunk_size''])"
    if "getint (params self) ''data'' ''chunk_size'' = Inr c"
  proof -
    have "get_chunk_size self None = (Inr c, [Lookup ''getint'' ''data'' ''chunk_size''])"
      using that by (simp add: get_chunk_size_configured)
    from analyze_plan [OF this assms qm] show ?thesis
      unfolding n_def r_def by (cases "0 < m") simp_all
  qed
  have m_bounds: "0 \<le> m" "m < c" using assms(1) by (simp_all add: m_def q_def minus_div_mult_eq_mod)
  have cover: "s = q * c + m" by (simp add: m_def)
  have "s \<le> n * c \<and> (n - 1) * c < s"
  proof (cases "0 < m")
    case True
    then show ?thesis using cover m_bounds by (simp add: n_def algebra_simps)
  next
    case False
    then have "m = 0" using m_bounds by simp
    then show ?thesis using cover assms(1) by (simp add: n_def algebra_simps)
  qed
  moreover have "(n, r) = (let whole = s div c; remainder = s - whole * c
                       in if remainder > 0 then (whole + 1, remainder) else (whole, 0))"
    unfolding n_def r_def Let_def m_def q_def by (cases "0 < s - s div c * c") simp_all
  ultimately show ?thesis using given configured unfolding s_def by blast
qed

text \<open>
  The example of 1000 samples in chunks of 300, given or configured: four chunks, the last
  of 100 samples.
\<close>

theorem analyze_chunk_plan_witness:
  "(0::int) < 300 \<and> int64_range 300 \<and> int64_range (fst (shape (demo_file 1)))
     \<and> getint (params (demo_file 1)) ''data'' ''chunk_size'' = Inr 300
     \<and> analyze (demo_file 1) (Some 300) = (Inr (4, 100), [])
     \<and> analyze (demo_file 1) None = (Inr (4, 100), [Lookup ''getint'' ''data'' ''chunk_size''])"
proof -
  have h1: "(0::int) < 300" by simp
  have h2: "int64_range 300" by (simp add: int64_range_def)
  have h3: "int64_range (fst (shape (demo_file 1)))"
    by (simp add: int64_range_def demo_file_def)
  have h4: "getint (params (demo_file 1)) ''data'' ''chunk_size'' = Inr 300"
    by (simp add: demo_file_def demo_params_def)
  have s: "fst (shape (demo_file 1)) = 1000" by (simp add: demo_file_def)
  show ?thesis using h1 h2 h3 h4 analyze_chunk_plan [OF h1 h2 h3]
    by (auto simp: s Let_def)
qed

text \<open>
  C1 as stated fails for a file handle whose number of samples does not fit the 64-bit
  integers: with \<open>shape[0] = 2 ^ 63\<close> the conversion \<open>numpy.int64(self.shape[0])\<close>
  raises, and \<open>analyze\<close> returns no pair.
\<close>

theorem analyze_overflow_counterexample:
  "analyze ((demo_file 1)\<lparr>shape := (2 ^ 63, 8)\<rparr>) (Some 300) = (Inl OverflowError, [])"
  by (simp add: analyze_def get_chunk_size_def numpy_int64_def int64_range_def)

subsection \<open>Rounding to doubles\<close>

lemma double_overflow_eq: "double_overflow = 2 ^ 1024"
  by (simp add: double_overflow_def)

lemma bit_length_bounds:
  "0 < n \<Longrightarrow> 0 < bit_length n \<and> 2 ^ nat (bit_length n - 1) \<le> n \<and> n < 2 ^ nat (bit_length n)"
proof (induction n rule: bit_length.induct)
  case (1 n)
  show ?case
  proof (cases "n = 1")
    case True
    then show ?thesis by (simp add: bit_length.simps [of 1] bit_length.simps [of 0])
  next
    case False
    with "1.prems" have h: "0 < n div 2" "\<not> n \<le> 0" by auto
    from "1.IH" [OF h(2) h(1)] obtain b where b: "b = bit_length (n div 2)" "0 < b"
      "2 ^ nat (b - 1) \<le> n div 2" "n div 2 < 2 ^ nat b" by auto
    have bl: "bit_length n = 1 + b" using h(2) b(1) by (subst bit_length.simps) simp
    have "nat (1 + b - 1) = Suc (nat (b - 1))" "nat (1 + b) = Suc (nat b)" using b(2) by auto
    then show ?thesis using b(2,3,4) bl by auto
  qed
qed

lemma ilog2_lower:
  assumes "0 < a"
  shows "2 powi (ilog2 a) \<le> a"
proof -
  obtain n d where q: "quotient_of a = (n, d)" by (cases "quotient_of a")
  have d: "0 < d" using q by (rule quotient_of_denom_pos)
  have a: "a = of_int n / of_int d" using q by (rule quotient_of_div)
  have n: "0 < n" using assms a d by (simp add: zero_less_divide_iff)
  define k where "k = bit_length n - bit_length d"
  show ?thesis
  proof (cases "2 powi k \<le> a")
    case True
    then show ?thesis using q by (simp add: ilog2_def k_def)
  next
    case False
    then have il: "ilog2 a = k - 1" using q by (simp add: ilog2_def k_def)
    from bit_length_bounds [OF n] have bn: "0 < bit_length n" "2 ^ nat (bit_length n - 1) \<le> n"
      by simp_all
    from bit_length_bounds [OF d] have bd: "0 < bit_length d" "d < 2 ^ nat (bit_length d)"
      by simp_all
    have "(2::rat) powi (bit_length n - 1) = of_int (2 ^ nat (bit_length n - 1))"
      using bn(1) by (simp add: power_int_def)
    also have "\<dots> \<le> of_int n" using bn(2) by (simp only: of_int_le_iff)
    finally have 1: "(2::rat) powi (bit_length n - 1) \<le> of_int n" .
    have "d \<le> 2 ^ nat (bit_length d)" using bd(2) by simp
    then have "(of_int d :: rat) \<le> of_int (2 ^ nat (bit_length d))"
      by (simp only: of_int_le_iff)
    also have "\<dots> = 2 powi (bit_length d)" using bd(1) by (simp add: power_int_def)
    finally have 2: "(of_int d :: rat) \<le> 2 powi (bit_length d)" .
    have eq: "k - 1 = (bit_length n - 1) - bit_length d" by (simp add: k_def)
    have "(2::rat) powi (k - 1) = 2 powi (bit_length n - 1) / 2 powi (bit_length d)"
      unfolding eq by (rule power_int_diff) simp
    also have "\<dots> \<le> of_int n / 2 powi (bit_length d)"
      using 1 by (simp add: divide_right_mono)
    also have "\<dots> \<le> of_int n / of_int d"
      using 2 d n by (simp add: divide_left_mono)
    finally show ?thesis using il a by simp
  qed
qed

lemma round_half_even_nonneg: "0 \<le> x \<Longrightarrow> 0 \<le> round_half_even x"
  by (auto simp: round_half_even_def Let_def)

lemma round_half_even_le:
  assumes "x \<le> of_int N"
  shows "round_half_even x \<le> N"
proof -
  have f: "\<lfloor>x\<rfloor> \<le> N" using assms by (simp add: floor_le_iff) 
  show ?thesis
  proof (cases "\<lfloor>x\<rfloor> = N")
    case True
    then have "x = of_int N" using assms of_int_floor_le [of x] by simp
    then show ?thesis by (simp add: round_half_even_def)
  next
    case False
    then have "\<lfloor>x\<rfloor> + 1 \<le> N" using f by simp
    then show ?thesis using f by (auto simp: round_half_even_def Let_def)
  qed
qed

lemma round_double_bounded:
  assumes "0 \<le> z" and "z \<le> 2 ^ k" and "k \<le> 1023"
  shows "\<exists>w. round_double z = Some w \<and> 0 \<le> w \<and> w \<le> 2 ^ k"
proof (cases "z = 0")
  case True
  then show ?thesis by (simp add: round_double_def)
next
  case False
  then have z: "0 < z" using assms(1) by simp
  define q where "q = max (ilog2 z - 52) (- 1074)"
  define m where "m = round_half_even (z / 2 powi q)"
  define y where "y = (of_int m :: rat) * 2 powi q"
  have "ilog2 z \<le> int k"
  proof (rule ccontr)
    assume "\<not> ilog2 z \<le> int k"
    then have "int k < ilog2 z" by simp
    then have "(2::rat) powi (int k) < 2 powi (ilog2 z)"
      by (rule power_int_strict_increasing) simp
    then show False using ilog2_lower [OF z] assms(2) by simp
  qed
  then have qk: "q \<le> int k" by (simp add: q_def)
  have "z / 2 powi q \<le> 2 powi (int k) / 2 powi q"
    using assms(2) by (simp add: divide_right_mono)
  also have "\<dots> = 2 powi (int k - q)" by (simp add: power_int_diff)
  also have "\<dots> = of_int (2 ^ nat (int k - q))" using qk by (simp add: power_int_def)
  finally have "m \<le> 2 ^ nat (int k - q)" unfolding m_def by (rule round_half_even_le)
  then have "(of_int m :: rat) \<le> of_int (2 ^ nat (int k - q))" by (simp only: of_int_le_iff)
  also have "\<dots> = 2 powi (int k - q)" using qk by (simp add: power_int_def)
  finally have "y \<le> 2 powi (int k - q) * 2 powi q"
    unfolding y_def by (simp add: mult_right_mono)
  also have "\<dots> = 2 ^ k" by (simp add: power_int_add [symmetric])
  finally have yk: "y \<le> 2 ^ k" .
  have "0 \<le> z / 2 powi q" using z by simp
  then have "0 \<le> m" unfolding m_def by (rule round_half_even_nonneg)
  then have y0: "0 \<le> y" by (simp add: y_def)
  have "(2::rat) ^ k \<le> 2 ^ 1023" using assms(3) by (intro power_increasing) simp_all
  also have "\<dots> < 2 ^ 1024" by simp
  finally have "\<not> double_overflow \<le> y" using yk by (simp add: double_overflow_eq)
  then have "round_double z = Some y"
    using z by (simp add: round_double_def Let_def q_def [symmetric] m_def [symmetric] y_def [symmetric])
  then show ?thesis using y0 yk by simp
qed

text \<open>
  The rounding on values computed with Python: the literals \<open>1e-3\<close>, \<open>8.2\<close> and \<open>0.3\<close>,
  the ties above \<open>2 ^ 53\<close>, a negative value and the products of
  the window at 30 kHz and 8.2 ms.
\<close>

lemma round_double_examples:
  "round_double (1 / 1000) = Some lit_1e_3"
  "round_double (41 / 5) = Some (2308094809027379 / 281474976710656)"
  "round_double (3 / 10) = Some (5404319552844595 / 18014398509481984)"
  "round_double 9007199254740993 = Some 9007199254740992"
  "round_double 9007199254740995 = Some 9007199254740996"
  "round_double (- (1 / 3)) = Some (- (6004799503160661 / 18014398509481984))"
  "fmul 30000 (2308094809027379 / 281474976710656) = Some (8452495638527999 / 34359738368)"
  "fmul (8452495638527999 / 34359738368) lit_1e_3 = Some (8655355533852671 / 35184372088832)"
  by code_simp+

lemma lit_1e_3_bounds: "0 \<le> lit_1e_3" "lit_1e_3 \<le> 1"
  by (simp_all add: lit_1e_3_def)

lemma fmul_bounded:
  assumes "0 \<le> x * y" and "x * y \<le> 2 ^ k" and "k \<le> 1023"
  shows "\<exists>w. fmul x y = Some w \<and> 0 \<le> w \<and> w \<le> 2 ^ k"
  using round_double_bounded [OF assms] by (simp add: fmul_def)

subsection \<open>Window length and window shift\<close>

lemma py_int_nonneg: "0 \<le> x \<Longrightarrow> 0 \<le> py_int x"
  by (simp add: py_int_def)

lemma py_int_le: "0 \<le> x \<Longrightarrow> x \<le> of_int N \<Longrightarrow> py_int x \<le> N"
  by (simp add: py_int_def floor_le_iff)

lemma lookup_N_t_detection:
  "getfloat p ''detection'' ''N_t'' = Inr d \<Longrightarrow>
     lookup_N_t p = (Inr d, [Lookup ''getfloat'' ''detection'' ''N_t''])"
  by (simp add: lookup_N_t_def)

lemma lookup_N_t_fallback:
  "getfloat p ''detection'' ''N_t'' = Inl e \<Longrightarrow> is_Exception e \<Longrightarrow>
     lookup_N_t p = (getfloat p ''data'' ''N_t'',
       [Lookup ''getfloat'' ''detection'' ''N_t'', Lookup ''getfloat'' ''data'' ''N_t''])"
  by (simp add: lookup_N_t_def)

lemma lookup_N_t_exit:
  "getfloat p ''detection'' ''N_t'' = Inl e \<Longrightarrow> \<not> is_Exception e \<Longrightarrow>
     lookup_N_t p = (Inl e, [Lookup ''getfloat'' ''detection'' ''N_t''])"
  by (simp add: lookup_N_t_def)

lemma N_t_computed:
  assumes "p_N_t self = PNone" and "attrs self ''rate'' = Some (PFloat rate)"
    and "lookup_N_t (params self) = (Inr d, tr)"
    and "fmul rate d = Some y" and "fmul y lit_1e_3 = Some x" and "int64_range (py_int x)"
  shows "N_t self =
           (let n = (if py_int x mod 2 = 0 then py_int x + 1 else py_int x)
            in (Inr (PInt n), self\<lparr>p_N_t := PInt n\<rparr>, tr))"
  using assms
  by (simp add: N_t_def getattr_def times_1e_3_def numpy_mod_def int64_range_def Let_def)

lemma N_t_result:
  assumes "N_t self = (Inr v, self1, tr)"
  shows "v \<noteq> PNone \<and> p_N_t self1 = v \<and> p_template_shift self1 = p_template_shift self
           \<and> p_safety_time self1 = p_safety_time self \<and> params self1 = params self"
proof (cases "p_N_t self = PNone")
  case False
  then show ?thesis using assms by (auto simp: N_t_def)
next
  case True
  obtain r tr0 where l: "lookup_N_t (params self) = (r, tr0)"
    by (cases "lookup_N_t (params self)")
  show ?thesis using assms True l
    by (auto simp: N_t_def getattr_def Let_def split: sum.splits option.splits if_splits)
qed

lemma demo_products:
  "fmul 20000 1 = Some 20000" "fmul 20000 lit_1e_3 = Some 20"
  by code_simp+

lemma demo_N_t:
  "N_t (demo_file 1) = (Inr (PInt 21), (demo_file 1)\<lparr>p_N_t := PInt 21\<rparr>,
     [Lookup ''getfloat'' ''detection'' ''N_t'', Lookup ''getfloat'' ''data'' ''N_t''])"
proof -
  have 1: "p_N_t (demo_file 1) = PNone" "attrs (demo_file 1) ''rate'' = Some (PFloat 20000)"
    by (simp_all add: demo_file_def)
  have 2: "lookup_N_t (params (demo_file 1)) =
         (Inr 1, [Lookup ''getfloat'' ''detection'' ''N_t'', Lookup ''getfloat'' ''data'' ''N_t''])"
    by (simp add: demo_file_def lookup_N_t_def demo_params_def)
  have 3: "int64_range (py_int 20)" by (simp add: py_int_def int64_range_def)
  show ?thesis using N_t_computed [OF 1 2 demo_products 3] by (simp add: py_int_def)
qed

text \<open>
  C2, as the code has it. Let the rate be resolved from the configuration and the window
  duration in milliseconds be the key of the section \<open>detection\<close> or, when that lookup
  raises, the key of the section \<open>data\<close>, with a product between 0 and \<open>2 ^ 62\<close>. Then
  both float products of \<open>rate * duration * 1e-3\<close> are finite, and the first access to
  \<open>N_t\<close> returns an odd, positive integer: the second product truncated towards zero by
  \<open>int\<close>, incremented by one exactly when the truncated value is even. The value is
  stored in \<open>_N_t\<close>.
\<close>

theorem N_t_truncates_then_odd:
  assumes "p_N_t self = PNone" and "attrs self ''rate'' = Some (PFloat rate)"
    and "getfloat (params self) ''detection'' ''N_t'' = Inr d
         \<or> (\<exists>e. getfloat (params self) ''detection'' ''N_t'' = Inl e \<and> is_Exception e)
             \<and> getfloat (params self) ''data'' ''N_t'' = Inr d"
    and "0 \<le> rate * d" and "rate * d \<le> 2 ^ 62"
  shows "\<exists>y x n tr. fmul rate d = Some y \<and> fmul y lit_1e_3 = Some x
           \<and> N_t self = (Inr (PInt n), self\<lparr>p_N_t := PInt n\<rparr>, tr)
           \<and> odd n \<and> 0 < n
           \<and> n = (let t = py_int x in if even t then t + 1 else t)"
proof -
  from assms(3) obtain tr where look: "lookup_N_t (params self) = (Inr d, tr)"
    using lookup_N_t_detection lookup_N_t_fallback by metis
  from fmul_bounded [OF assms(4,5)] obtain y
    where y: "fmul rate d = Some y" "0 \<le> y" "y \<le> 2 ^ 62" by auto
  have "0 \<le> y * lit_1e_3" using y(2) lit_1e_3_bounds(1) by simp
  moreover have "y * lit_1e_3 \<le> 2 ^ 62"
  proof -
    have "y * lit_1e_3 \<le> y * 1" using y(2) lit_1e_3_bounds(2) by (rule mult_left_mono [rotated])
    then show ?thesis using y(3) by simp
  qed
  ultimately obtain x where x: "fmul y lit_1e_3 = Some x" "0 \<le> x" "x \<le> 2 ^ 62"
    using fmul_bounded [of y lit_1e_3 62] by auto
  define t where "t = py_int x"
  define n where "n = (if even t then t + 1 else t)"
  have t0: "0 \<le> t" unfolding t_def using x(2) by (rule py_int_nonneg)
  have "t \<le> 2 ^ 62" unfolding t_def using x(2,3) by (intro py_int_le) simp_all
  then have range: "int64_range (py_int x)" using t0 by (simp add: t_def int64_range_def)
  have run: "N_t self = (Inr (PInt n), self\<lparr>p_N_t := PInt n\<rparr>, tr)"
    using N_t_computed [OF assms(1,2) look y(1) x(1) range]
    by (simp add: Let_def n_def t_def even_iff_mod_2_eq_zero)
  have "odd n \<and> 0 < n"
  proof (cases "even t")
    case True
    then show ?thesis using t0 by (simp add: n_def)
  next
    case False
    then have "t \<noteq> 0" by auto
    then show ?thesis using False t0 by (simp add: n_def)
  qed
  then have "fmul rate d = Some y \<and> fmul y lit_1e_3 = Some x
      \<and> N_t self = (Inr (PInt n), self\<lparr>p_N_t := PInt n\<rparr>, tr) \<and> odd n \<and> 0 < n
      \<and> n = (let t = py_int x in if even t then t + 1 else t)"
    using y(1) x(1) run by (simp add: n_def t_def Let_def)
  then show ?thesis by blast
qed

text \<open>
  The window at 30 kHz and 8.2 ms, the duration coming from the section \<open>data\<close>: the
  products are 245999.99999999997 and 245.99999999999997, truncated to 245.
\<close>

theorem N_t_truncates_then_odd_witness:
  "p_N_t (demo_file_at 30000 (double (41 / 5))) = PNone
     \<and> attrs (demo_file_at 30000 (double (41 / 5))) ''rate'' = Some (PFloat 30000)
     \<and> getfloat (params (demo_file_at 30000 (double (41 / 5)))) ''detection'' ''N_t''
         = Inl (NoOptionError ''N_t'' ''detection'')
     \<and> is_Exception (NoOptionError ''N_t'' ''detection'')
     \<and> getfloat (params (demo_file_at 30000 (double (41 / 5)))) ''data'' ''N_t''
         = Inr (double (41 / 5))
     \<and> 0 \<le> 30000 * double (41 / 5) \<and> 30000 * double (41 / 5) \<le> 2 ^ 62
     \<and> fst (N_t (demo_file_at 30000 (double (41 / 5)))) = Inr (PInt 245)"
proof -
  let ?f = "demo_file_at 30000 (double (41 / 5))"
  have d: "double (41 / 5) = 2308094809027379 / 281474976710656"
    by (simp add: double_def round_double_examples)
  have h1: "p_N_t ?f = PNone" by (simp add: demo_file_at_def demo_file_def)
  have h2: "attrs ?f ''rate'' = Some (PFloat 30000)" by (simp add: demo_file_at_def)
  have h3: "getfloat (params ?f) ''detection'' ''N_t'' = Inl (NoOptionError ''N_t'' ''detection'')"
    by (simp add: demo_file_at_def demo_file_def demo_params_def)
  have h4: "is_Exception (NoOptionError ''N_t'' ''detection'')" by simp
  have h5: "getfloat (params ?f) ''data'' ''N_t'' = Inr (double (41 / 5))"
    by (simp add: demo_file_at_def demo_file_def demo_params_def)
  have h6: "0 \<le> 30000 * double (41 / 5)" and h7: "30000 * double (41 / 5) \<le> 2 ^ 62"
    by (simp_all add: d)
  have h3': "getfloat (params ?f) ''detection'' ''N_t'' = Inr (double (41 / 5))
         \<or> (\<exists>e. getfloat (params ?f) ''detection'' ''N_t'' = Inl e \<and> is_Exception e)
             \<and> getfloat (params ?f) ''data'' ''N_t'' = Inr (double (41 / 5))"
    using h3 h4 h5 by blast
  have t: "py_int (8655355533852671 / 35184372088832) = 245" by code_simp
  from N_t_truncates_then_odd [OF h1 h2 h3' h6 h7] obtain y x n tr
    where r: "fmul 30000 (double (41 / 5)) = Some y" "fmul y lit_1e_3 = Some x"
      "N_t ?f = (Inr (PInt n), ?f\<lparr>p_N_t := PInt n\<rparr>, tr)"
      "n = (let t = py_int x in if even t then t + 1 else t)" by blast
  have "Some y = Some (8452495638527999 / 34359738368)"
    using r(1) by (simp only: d round_double_examples)
  then have y: "y = 8452495638527999 / 34359738368" by (simp only: option.inject)
  have "Some x = Some (8655355533852671 / 35184372088832)"
    using r(2) by (simp only: y round_double_examples)
  then have x: "x = 8655355533852671 / 35184372088832" by (simp only: option.inject)
  have "n = 245" using r(4) by (simp add: x t)
  then have "fst (N_t ?f) = Inr (PInt 245)" using r(3) by simp
  then show ?thesis using h1 h2 h3 h4 h5 h6 h7 by blast
qed

text \<open>
  C2 as stated fails: at 20 kHz and 1.28 ms the product is 25.6, which \<open>int\<close> truncates
  to 25, an odd number that is kept, while rounding gives 26. The window length is neither
  the rounded value nor the rounded value plus one.
\<close>

theorem N_t_not_rounded_counterexample:
  "fst (N_t (demo_file (double (32 / 25)))) = Inr (PInt 25)
     \<and> fst (N_t (demo_file (double (32 / 25))))
         \<noteq> Inr (PInt (round (20000 * (32 / 25) / 1000 :: rat)))
     \<and> fst (N_t (demo_file (double (32 / 25))))
         \<noteq> Inr (PInt (round (20000 * (32 / 25) / 1000 :: rat) + 1))"
  by code_simp

text \<open>The window length that Python computes at 20 kHz for 0.3 ms: 6 samples, hence 7.\<close>

lemma N_t_example: "fst (N_t (demo_file (double (3 / 10)))) = Inr (PInt 7)"
  by code_simp

text \<open>
  C3. When no shift is stored in \<open>_template_shift\<close> and the access to \<open>N_t\<close> gives the
  integer \<open>n\<close>, the window shift is \<open>(n - 1) // 2\<close>, with the floor division of integers.
\<close>

theorem template_shift_half_window:
  assumes "p_template_shift self = PNone" and "N_t self = (Inr (PInt n), self1, tr)"
  shows "template_shift self = (Inr (PInt ((n - 1) div 2)), self1, tr)"
  using assms by (simp add: template_shift_def)

text \<open>The example of 20 kHz and 1 ms: a window of 21 samples and a shift of 10.\<close>

theorem template_shift_half_window_witness:
  "p_template_shift (demo_file 1) = PNone
     \<and> N_t (demo_file 1) = (Inr (PInt 21), (demo_file 1)\<lparr>p_N_t := PInt 21\<rparr>,
          [Lookup ''getfloat'' ''detection'' ''N_t'', Lookup ''getfloat'' ''data'' ''N_t''])
     \<and> fst (template_shift (demo_file 1)) = Inr (PInt 10)"
proof -
  have h1: "p_template_shift (demo_file 1) = PNone" by (simp add: demo_file_def)
  note h2 = demo_N_t
  show ?thesis using h1 h2 template_shift_half_window [OF h1 h2] by simp
qed

subsection \<open>Messages of the constructor\<close>

text \<open>
  The format of line 95 has one placeholder and is given two arguments; the four other
  formats of the constructor have two placeholders and two arguments.
\<close>

lemma percent_empty_message:
  "percent ''The file %s is empty and non writable...'' [a, b] = Inl TypeError"
  by (simp add: percent_def)

lemma percent_extension_message:
  "percent ''The extension %s is not valid for a %s file'' [a, b]
     = Inr (''The extension %s is not valid for a %s file'', [a, b])"
  by (simp add: percent_def)

lemma percent_read_message:
  "percent ''%s is read from the params with a value of %s'' [a, b]
     = Inr (''%s is read from the params with a value of %s'', [a, b])"
  by (simp add: percent_def)

lemma percent_infered_message:
  "percent ''%s is infered from the data file with a value of %s'' [a, b]
     = Inr (''%s is infered from the data file with a value of %s'', [a, b])"
  by (simp add: percent_def)

lemma percent_created_message:
  "percent ''The datafile %s with type %s has been created'' [a, b]
     = Inr (''The datafile %s with type %s has been created'', [a, b])"
  by (simp add: percent_def)

subsection \<open>Empty files of a read-only format\<close>

text \<open>
  C5. For a format that is not writable, the construction with \<open>is_empty = True\<close> never
  gives an instance, whatever the file name, the resolver and the overrides: it ends with
  \<open>sys.exit(0)\<close> on every process but the master, and on the master with the exception
  that the message of line 95 raises (see C10). Nothing is printed on either path.
\<close>

theorem init_empty_nonwritable_fails:
  assumes "\<not> p_is_writable cls"
  shows "init cls rank fn prm True kwargs
           = (Inl (if rank = 0 then UnboundLocalError ''extension'' else SystemExit 0), [])"
  using assms by (simp add: init_def check_empty_def is_master_def local_var_def)

text \<open>A read-only format on the process of rank 1: the constructor exits.\<close>

theorem init_empty_nonwritable_fails_witness:
  "\<not> p_is_writable readonly_format
     \<and> init readonly_format 1 ''rec.dat'' (demo_params 1) True [] = (Inl (SystemExit 0), [])"
proof -
  have h: "\<not> p_is_writable readonly_format" by (simp add: readonly_format_def)
  show ?thesis
    using h init_empty_nonwritable_fails [OF h, of 1 "''rec.dat''" "demo_params 1" "[]"]
    by simp
qed

text \<open>
  C10. On the master, the construction of an empty file of a format that is not writable
  ends with the \<open>UnboundLocalError\<close> for \<open>extension\<close>, read at line 95 and assigned at
  line 98, and the trace is empty: \<open>print_error\<close> is not called and \<open>sys.exit\<close> is not
  reached. Were \<open>extension\<close> bound to any string, the format with a single placeholder
  and two arguments would raise a \<open>TypeError\<close>, again before \<open>print_error\<close>.
\<close>

theorem empty_diagnostic_never_emitted:
  assumes "\<not> p_is_writable cls"
  shows "init cls 0 fn prm True kwargs = (Inl (UnboundLocalError ''extension''), [])
           \<and> (\<forall>ext. check_empty cls 0 True (Some ext) = (Inl TypeError, []))"
  using assms
  by (simp add: init_def check_empty_def is_master_def local_var_def percent_empty_message)

text \<open>The read-only format on the master.\<close>

theorem empty_diagnostic_never_emitted_witness:
  "\<not> p_is_writable readonly_format
     \<and> init readonly_format 0 ''rec.dat'' (demo_params 1) True []
           = (Inl (UnboundLocalError ''extension''), [])
     \<and> check_empty readonly_format 0 True (Some ''.dat'') = (Inl TypeError, [])"
proof -
  have h: "\<not> p_is_writable readonly_format" by (simp add: readonly_format_def)
  show ?thesis
    using h empty_diagnostic_never_emitted [OF h, of "''rec.dat''" "demo_params 1" "[]"]
    by simp
qed

subsection \<open>Extension check\<close>

lemma check_extension_accepts:
  "(check_extension cls rank ext = (Inr (), []))
     = (case p_extension cls of None \<Rightarrow> True
        | Some exts \<Rightarrow> ext \<in> set exts \<union> upper ` set exts)"
  by (auto simp: check_extension_def percent_extension_message split: option.splits)

lemma check_extension_rejects:
  "check_extension cls rank ext \<noteq> (Inr (), []) \<Longrightarrow> fst (check_extension cls rank ext) = Inl (SystemExit 0)"
  by (auto simp: check_extension_def percent_extension_message split: option.splits if_splits)

text \<open>
  C6, as the code has it. Without a list of extensions no check is made and every
  extension passes. With a list, the extension passes exactly when it is one of the listed
  extensions or the upper-case form of one; otherwise the construction (when the check of
  empty files lets it through) ends with \<open>sys.exit(0)\<close>. For an extension that passes,
  the construction is the one of the same format without a list.
\<close>

theorem extension_exact_or_upper:
  "(p_extension cls = None \<longrightarrow> check_extension cls rank ext = (Inr (), []))
   \<and> (p_extension cls = Some exts \<longrightarrow>
        (check_extension cls rank ext = (Inr (), [])) = (ext \<in> set exts \<union> upper ` set exts))
   \<and> (p_extension cls = Some exts \<and> snd (splitext fn) \<notin> set exts \<union> upper ` set exts
        \<and> \<not> (e \<and> \<not> p_is_writable cls)
        \<longrightarrow> fst (init cls rank fn prm e kwargs) = Inl (SystemExit 0))
   \<and> (p_extension cls = Some exts \<and> snd (splitext fn) \<in> set exts \<union> upper ` set exts
        \<longrightarrow> init cls rank fn prm e kwargs = init (cls\<lparr>p_extension := None\<rparr>) rank fn prm e kwargs)"
proof (intro conjI impI)
  show "p_extension cls = None \<Longrightarrow> check_extension cls rank ext = (Inr (), [])"
    by (simp add: check_extension_accepts)
  show "p_extension cls = Some exts \<Longrightarrow>
      (check_extension cls rank ext = (Inr (), [])) = (ext \<in> set exts \<union> upper ` set exts)"
    by (simp add: check_extension_accepts)
next
  assume a: "p_extension cls = Some exts \<and> snd (splitext fn) \<notin> set exts \<union> upper ` set exts
        \<and> \<not> (e \<and> \<not> p_is_writable cls)"
  then have "check_extension cls rank (snd (splitext fn)) \<noteq> (Inr (), [])"
    by (simp add: check_extension_accepts)
  then have "fst (check_extension cls rank (snd (splitext fn))) = Inl (SystemExit 0)"
    by (rule check_extension_rejects)
  moreover have "check_empty cls rank e None = (Inr (), [])"
    using a by (auto simp: check_empty_def)
  ultimately show "fst (init cls rank fn prm e kwargs) = Inl (SystemExit 0)"
    by (auto simp: init_def split: prod.splits sum.splits)
next
  assume a: "p_extension cls = Some exts \<and> snd (splitext fn) \<in> set exts \<union> upper ` set exts"
  then have 1: "check_extension cls rank (snd (splitext fn)) = (Inr (), [])"
    by (simp add: check_extension_accepts)
  have 2: "check_extension (cls\<lparr>p_extension := None\<rparr>) rank (snd (splitext fn)) = (Inr (), [])"
    by (simp add: check_extension_accepts)
  have 3: "check_empty (cls\<lparr>p_extension := None\<rparr>) rank e None = check_empty cls rank e None"
    by (simp add: check_empty_def local_var_def)
  have 4: "new_self (cls\<lparr>p_extension := None\<rparr>) fn prm e = new_self cls fn prm e"
    by (simp add: new_self_def)
  have 5: "log_created (cls\<lparr>p_extension := None\<rparr>) rank s = log_created cls rank s" for s
    by (simp add: log_created_def)
  obtain f x where sp: "splitext fn = (f, x)" by (cases "splitext fn")
  obtain r0 t0 where ce: "check_empty cls rank e None = (r0, t0)"
    by (cases "check_empty cls rank e None")
  from 1 2 sp have 6: "check_extension cls rank x = (Inr (), [])"
    "check_extension (cls\<lparr>p_extension := None\<rparr>) rank x = (Inr (), [])" by simp_all
  show "init cls rank fn prm e kwargs = init (cls\<lparr>p_extension := None\<rparr>) rank fn prm e kwargs"
    by (cases r0) (simp_all add: init_def 3 4 5 6 sp ce cong: sum.case_cong prod.case_cong)
qed

text \<open>
  For the list \<open>[.dat]\<close>: any extension passes without the list, \<open>.DAT\<close> passes with it,
  \<open>rec.xyz\<close> is refused, and \<open>rec.DAT\<close> is constructed as without the list.
\<close>

theorem extension_exact_or_upper_witness:
  "check_extension (demo_format\<lparr>p_extension := None\<rparr>) 0 ''.xyz'' = (Inr (), [])
   \<and> check_extension demo_format 0 ''.DAT'' = (Inr (), [])
   \<and> fst (init demo_format 0 ''rec.xyz'' (demo_params 1) False []) = Inl (SystemExit 0)
   \<and> init demo_format 0 ''rec.DAT'' (demo_params 1) False []
        = init (demo_format\<lparr>p_extension := None\<rparr>) 0 ''rec.DAT'' (demo_params 1) False []"
proof -
  have none: "p_extension (demo_format\<lparr>p_extension := None\<rparr>) = None" by simp
  have some: "p_extension demo_format = Some [''.dat'']" by (simp add: demo_format_def)
  have up: "''.DAT'' \<in> set [''.dat''] \<union> upper ` set [''.dat'']"
    by (simp add: upper_def upper_char_def)
  have bad: "snd (splitext ''rec.xyz'') \<notin> set [''.dat''] \<union> upper ` set [''.dat'']"
    by (simp add: splitext_def rfind_def skip_dots.simps upper_def upper_char_def)
  have good: "snd (splitext ''rec.DAT'') \<in> set [''.dat''] \<union> upper ` set [''.dat'']"
    by (simp add: splitext_def rfind_def skip_dots.simps upper_def upper_char_def)
  have wr: "\<not> (False \<and> \<not> p_is_writable demo_format)" by simp
  from extension_exact_or_upper
         [of "demo_format\<lparr>p_extension := None\<rparr>" 0 "''.xyz''" "[]" "''rec.xyz''" False
             "demo_params 1" "[]"] none
  have 1: "check_extension (demo_format\<lparr>p_extension := None\<rparr>) 0 ''.xyz'' = (Inr (), [])"
    by blast
  from extension_exact_or_upper
         [of demo_format 0 "''.DAT''" "[''.dat'']" "''rec.xyz''" False "demo_params 1" "[]"]
       some up bad wr
  have 2: "check_extension demo_format 0 ''.DAT'' = (Inr (), [])"
    and 3: "fst (init demo_format 0 ''rec.xyz'' (demo_params 1) False []) = Inl (SystemExit 0)"
    by blast+
  from extension_exact_or_upper
         [of demo_format 0 "''.DAT''" "[''.dat'']" "''rec.DAT''" False "demo_params 1" "[]"]
       some good
  have 4: "init demo_format 0 ''rec.DAT'' (demo_params 1) False []
        = init (demo_format\<lparr>p_extension := None\<rparr>) 0 ''rec.DAT'' (demo_params 1) False []"
    by blast
  from 1 2 3 4 show ?thesis by blast
qed

text \<open>
  C6 as stated fails: \<open>.Dat\<close> differs from the allowed \<open>.dat\<close> in letter case only,
  and the construction of \<open>rec.Dat\<close> is refused. The comparison is not case-insensitive.
\<close>

theorem extension_mixed_case_counterexample:
  "p_extension demo_format = Some [''.dat'']
   \<and> upper (snd (splitext ''rec.Dat'')) = upper ''.dat''
   \<and> fst (init demo_format 1 ''rec.Dat'' (demo_params 1) False []) = Inl (SystemExit 0)"
  by (simp add: init_def check_empty_def check_extension_def demo_format_def is_master_def
      splitext_def rfind_def skip_dots.simps upper_def upper_char_def)

subsection \<open>Attributes set by name\<close>

lemma setattr_other:
  "setattr self key v = Inr self' \<Longrightarrow> k \<noteq> key \<Longrightarrow> attrs self' k = attrs self k"
  by (auto simp: setattr_def split: if_splits)

lemma setattr_params: "setattr self key v = Inr self' \<Longrightarrow> params self' = params self"
  by (auto simp: setattr_def split: if_splits)

lemma setattr_core:
  assumes "key \<in> {''rate'', ''N_e'', ''N_tot''}"
  shows "setattr self key v = Inr (self\<lparr>attrs := (attrs self)(key \<mapsto> v)\<rparr>)"
proof -
  have "setattr self ''rate'' v = Inr (self\<lparr>attrs := (attrs self)(''rate'' \<mapsto> v)\<rparr>)"
    by (simp add: setattr_def properties_def)
  moreover have "setattr self ''N_e'' v = Inr (self\<lparr>attrs := (attrs self)(''N_e'' \<mapsto> v)\<rparr>)"
    by (simp add: setattr_def properties_def)
  moreover have "setattr self ''N_tot'' v = Inr (self\<lparr>attrs := (attrs self)(''N_tot'' \<mapsto> v)\<rparr>)"
    by (simp add: setattr_def properties_def)
  ultimately show ?thesis using assms by blast
qed

lemma set_kwargs_params: "set_kwargs self kwargs = Inr self' \<Longrightarrow> params self' = params self"
  by (induction kwargs arbitrary: self) (auto split: sum.splits dest: setattr_params)

lemma set_kwargs_absent:
  "set_kwargs self kwargs = Inr self' \<Longrightarrow> k \<notin> fst ` set kwargs \<Longrightarrow> attrs self' k = attrs self k"
proof (induction kwargs arbitrary: self)
  case Nil
  then show ?case by simp
next
  case (Cons a kwargs)
  obtain key v where a: "a = (key, v)" by (cases a)
  with Cons.prems obtain s1 where s1: "setattr self key v = Inr s1" "set_kwargs s1 kwargs = Inr self'"
    by (auto split: sum.splits)
  have "k \<noteq> key" using Cons.prems(2) a by auto
  then have "attrs s1 k = attrs self k" using s1(1) by (rule setattr_other [rotated])
  moreover have "attrs self' k = attrs s1 k" using Cons.IH [OF s1(2)] Cons.prems(2) by simp
  ultimately show ?case by simp
qed

lemma set_kwargs_core:
  assumes "set_kwargs self kwargs = Inr self'" and "distinct (map fst kwargs)"
    and "k \<in> {''rate'', ''N_e'', ''N_tot''}"
  shows "attrs self' k = (case map_of kwargs k of Some v \<Rightarrow> Some v | None \<Rightarrow> attrs self k)"
  using assms(1,2)
proof (induction kwargs arbitrary: self)
  case Nil
  then show ?case by simp
next
  case (Cons a kwargs)
  obtain key v where a: "a = (key, v)" by (cases a)
  with Cons.prems obtain s1 where s1: "setattr self key v = Inr s1" "set_kwargs s1 kwargs = Inr self'"
    by (auto split: sum.splits)
  have d: "distinct (map fst kwargs)" "key \<notin> fst ` set kwargs" using Cons.prems(2) a by auto
  show ?case
  proof (cases "k = key")
    case True
    then have "s1 = self\<lparr>attrs := (attrs self)(key \<mapsto> v)\<rparr>"
      using s1(1) assms(3) setattr_core [of key self v] by simp
    then have "attrs s1 k = Some v" using True by simp
    moreover have "attrs self' k = attrs s1 k"
      using set_kwargs_absent [OF s1(2)] d(2) True by simp
    ultimately show ?thesis using a True by simp
  next
    case False
    then have "attrs s1 k = attrs self k" using s1(1) by (rule setattr_other [rotated])
    then show ?thesis using Cons.IH [OF s1(2) d(1)] a False by (simp split: option.splits)
  qed
qed

lemma resolve_one_unfold:
  "resolve_one rank (key, sec, opt, ty) tbs self =
     (if attrs self key = None
      then (case lookup_typed (params self) sec opt ty tbs of
              (Inl e, tr) \<Rightarrow> (Inl e, tr)
            | (Inr None, tr) \<Rightarrow> (Inl (UnboundLocalError ''to_be_set''), tr)
            | (Inr (Some v), tr) \<Rightarrow>
                (case setattr self key v of
                   Inl e \<Rightarrow> (Inl e, tr)
                 | Inr self' \<Rightarrow>
                     (Inr (self', Some v),
                      tr @ (if rank = 0
                            then [print_and_log ''%s is read from the params with a value of %s''
                                    [PStr key, v] ''debug'']
                            else []))))
      else (Inr (self, tbs),
            if rank = 0
            then [print_and_log ''%s is infered from the data file with a value of %s''
                    [PStr key, PList [PStr sec, PStr opt, PStr ty]] ''debug'']
            else []))"
  by (simp add: resolve_one_def hasattr_def is_master_def local_var_def percent_read_message
      percent_infered_message split: prod.splits sum.splits option.splits)

lemma lookup_typed_trace:
  "lookup_typed p sec opt ty tbs = (r, tr) \<Longrightarrow> Lookup g s o' \<in> set tr \<Longrightarrow> s = sec \<and> o' = opt"
  by (auto simp: lookup_typed_def split: if_splits sum.splits)

lemma resolve_one_cases:
  assumes "resolve_one rank (key, sec, opt, ty) tbs self = (Inr (self', tbs'), tr)"
  shows "(attrs self key \<noteq> None \<and> self' = self)
       \<or> (attrs self key = None \<and> (\<exists>v. setattr self key v = Inr self'
              \<and> fst (lookup_typed (params self) sec opt ty tbs) = Inr (Some v)))"
proof (cases "attrs self key = None")
  case False
  then obtain y where "attrs self key = Some y" by auto
  then show ?thesis using assms by (simp add: resolve_one_unfold)
next
  case True
  obtain r tr0 where l: "lookup_typed (params self) sec opt ty tbs = (r, tr0)"
    by (cases "lookup_typed (params self) sec opt ty tbs")
  show ?thesis using assms True l
    by (simp add: resolve_one_unfold split: sum.splits option.splits)
qed

lemma resolve_one_kept:
  assumes "resolve_one rank (key, sec, opt, ty) tbs self = (Inr (self', tbs'), tr)"
    and "attrs self k = Some v"
  shows "attrs self' k = Some v"
  using resolve_one_cases [OF assms(1)] assms(2) setattr_other [of self key _ self' k]
  by (cases "k = key") auto

lemma resolve_one_params:
  assumes "resolve_one rank (key, sec, opt, ty) tbs self = (Inr (self', tbs'), tr)"
  shows "params self' = params self"
  using resolve_one_cases [OF assms] setattr_params by blast

lemma resolve_one_absent:
  assumes "resolve_one rank (key, sec, opt, ty) tbs self = (Inr (self', tbs'), tr)"
    and "k \<noteq> key"
  shows "attrs self' k = attrs self k"
  using resolve_one_cases [OF assms(1)] assms(2) setattr_other [of self key _ self' k]
  by auto

lemma resolve_one_lookup:
  assumes "resolve_one rank (key, sec, opt, ty) tbs self = (r, tr)"
    and "Lookup g s o' \<in> set tr"
  shows "s = sec \<and> o' = opt \<and> attrs self key = None"
proof (cases "attrs self key = None")
  case False
  then show ?thesis using assms by (auto simp: resolve_one_unfold split: if_splits)
next
  case True
  obtain r0 tr0 where l: "lookup_typed (params self) sec opt ty tbs = (r0, tr0)"
    by (cases "lookup_typed (params self) sec opt ty tbs")
  have "Lookup g s o' \<in> set tr0"
    using assms True l
    by (auto simp: resolve_one_unfold split: sum.splits option.splits if_splits)
  then show ?thesis using lookup_typed_trace [OF l] True by simp
qed

subsection \<open>The loop over the core fields\<close>

lemma resolve_kept:
  "resolve rank reqs tbs self = (Inr self', tr) \<Longrightarrow> attrs self k = Some v
     \<Longrightarrow> attrs self' k = Some v"
proof (induction reqs arbitrary: tbs self tr)
  case Nil
  then show ?case by simp
next
  case (Cons entry reqs)
  obtain key sec opt ty where entry: "entry = (key, sec, opt, ty)" by (cases entry)
  obtain r1 tr1 where one: "resolve_one rank (key, sec, opt, ty) tbs self = (r1, tr1)"
    by (cases "resolve_one rank (key, sec, opt, ty) tbs self")
  from Cons.prems(1) entry one obtain s1 t1 tr'
    where r1: "r1 = Inr (s1, t1)" and rest: "resolve rank reqs t1 s1 = (Inr self', tr')"
    by (auto split: sum.splits prod.splits)
  have "attrs s1 k = Some v" using one r1 Cons.prems(2) resolve_one_kept by blast
  then show ?case using Cons.IH [OF rest] by simp
qed

lemma resolve_lookup:
  "resolve rank reqs tbs self = (r, tr) \<Longrightarrow> Lookup g s o' \<in> set tr
     \<Longrightarrow> \<exists>key ty. (key, s, o', ty) \<in> set reqs \<and> attrs self key = None"
proof (induction reqs arbitrary: tbs self r tr)
  case Nil
  then show ?case by simp
next
  case (Cons entry reqs)
  obtain key sec opt ty where entry: "entry = (key, sec, opt, ty)" by (cases entry)
  obtain r1 tr1 where one: "resolve_one rank (key, sec, opt, ty) tbs self = (r1, tr1)"
    by (cases "resolve_one rank (key, sec, opt, ty) tbs self")
  show ?case
  proof (cases r1)
    case (Inl e)
    then have "tr = tr1" using Cons.prems(1) entry one by simp
    then show ?thesis using resolve_one_lookup [OF one] Cons.prems(2) entry by auto
  next
    case (Inr p)
    obtain s1 t1 where p: "p = (s1, t1)" by (cases p)
    obtain r' tr' where rest: "resolve rank reqs t1 s1 = (r', tr')"
      by (cases "resolve rank reqs t1 s1")
    have tr: "tr = tr1 @ tr'" using Cons.prems(1) entry one Inr p rest by simp
    show ?thesis
    proof (cases "Lookup g s o' \<in> set tr1")
      case True
      then show ?thesis using resolve_one_lookup [OF one] entry by auto
    next
      case False
      then have "Lookup g s o' \<in> set tr'" using Cons.prems(2) tr by simp
      from Cons.IH [OF rest this] obtain k t
        where k: "(k, s, o', t) \<in> set reqs" "attrs s1 k = None" by blast
      have "attrs self k = None"
      proof (rule ccontr)
        assume "attrs self k \<noteq> None"
        then obtain v where "attrs self k = Some v" by auto
        then have "attrs s1 k = Some v" using one Inr p resolve_one_kept by blast
        then show False using k(2) by simp
      qed
      then show ?thesis using k(1) by auto
    qed
  qed
qed

lemma lookup_typed_int:
  "lookup_typed p sec opt ''int'' tbs =
     (case getint p sec opt of
        Inl e \<Rightarrow> Inl e
      | Inr i \<Rightarrow> (case numpy_int64 i of Inl e \<Rightarrow> Inl e | Inr j \<Rightarrow> Inr (Some (PInt j))),
      [Lookup ''getint'' sec opt])"
  by (simp add: lookup_typed_def split: sum.splits)

lemma lookup_typed_float:
  "lookup_typed p sec opt ''float'' tbs =
     (case getfloat p sec opt of Inl e \<Rightarrow> Inl e | Inr x \<Rightarrow> Inr (Some (PFloat x)),
      [Lookup ''getfloat'' sec opt])"
  by (simp add: lookup_typed_def split: sum.splits)

lemma lookup_typed_known:
  assumes "ty \<in> {''int'', ''float''}"
  shows "lookup_typed p sec opt ty tbs = lookup_typed p sec opt ty None"
    and "snd (lookup_typed p sec opt ty tbs) = [Lookup (''get'' @ ty) sec opt]"
    and "fst (lookup_typed p sec opt ty tbs) \<noteq> Inr None"
  using assms by (auto simp: lookup_typed_int lookup_typed_float split: sum.splits)

lemma resolve_one_sets:
  assumes "ty \<in> {''int'', ''float''}" and "key \<in> {''rate'', ''N_e'', ''N_tot''}"
    and "attrs self key = None"
  shows "resolve_one rank (key, sec, opt, ty) tbs self = (Inr (self', tbs'), tr) \<Longrightarrow>
           \<exists>v. fst (lookup_typed (params self) sec opt ty None) = Inr (Some v)
              \<and> attrs self' key = Some v \<and> Lookup (''get'' @ ty) sec opt \<in> set tr"
    and "fst (lookup_typed (params self) sec opt ty None) = Inl e \<Longrightarrow>
           isl (fst (resolve_one rank (key, sec, opt, ty) tbs self))"
proof -
  obtain r0 tr0 where l: "lookup_typed (params self) sec opt ty tbs = (r0, tr0)"
    by (cases "lookup_typed (params self) sec opt ty tbs")
  have l': "lookup_typed (params self) sec opt ty None = (r0, tr0)"
    and tr0: "tr0 = [Lookup (''get'' @ ty) sec opt]"
    using lookup_typed_known(1,2) [OF assms(1), of "params self" sec opt tbs] l
    by (metis, metis snd_conv)
  {
    assume "fst (lookup_typed (params self) sec opt ty None) = Inl e"
    then show "isl (fst (resolve_one rank (key, sec, opt, ty) tbs self))"
      using l l' assms(3) by (simp add: resolve_one_unfold)
  }
  {
    assume a: "resolve_one rank (key, sec, opt, ty) tbs self = (Inr (self', tbs'), tr)"
    then obtain v where v: "r0 = Inr (Some v)"
      using l assms(3) by (auto simp: resolve_one_unfold split: sum.splits option.splits)
    have "self' = self\<lparr>attrs := (attrs self)(key \<mapsto> v)\<rparr>" and "set tr0 \<subseteq> set tr"
      using a l v assms(3) setattr_core [OF assms(2), of self v]
      by (auto simp: resolve_one_unfold)
    then show "\<exists>v. fst (lookup_typed (params self) sec opt ty None) = Inr (Some v)
              \<and> attrs self' key = Some v \<and> Lookup (''get'' @ ty) sec opt \<in> set tr"
      using l' v tr0 by auto
  }
qed

lemma resolve_sets:
  assumes "distinct (map fst reqs)" and "(key, sec, opt, ty) \<in> set reqs"
    and "ty \<in> {''int'', ''float''}" and "key \<in> {''rate'', ''N_e'', ''N_tot''}"
    and "attrs self key = None" and "params self = p"
  shows "(\<forall>self' tr. resolve rank reqs tbs self = (Inr self', tr) \<longrightarrow>
            (\<exists>v. fst (lookup_typed p sec opt ty None) = Inr (Some v)
               \<and> attrs self' key = Some v \<and> Lookup (''get'' @ ty) sec opt \<in> set tr))
       \<and> (\<forall>e. fst (lookup_typed p sec opt ty None) = Inl e \<longrightarrow>
            isl (fst (resolve rank reqs tbs self)))"
  using assms(1,2,5,6)
proof (induction reqs arbitrary: tbs self)
  case Nil
  then show ?case by simp
next
  case (Cons entry reqs)
  obtain k1 s1 o1 t1 where entry: "entry = (k1, s1, o1, t1)" by (cases entry)
  obtain r1 tr1 where one: "resolve_one rank (k1, s1, o1, t1) tbs self = (r1, tr1)"
    by (cases "resolve_one rank (k1, s1, o1, t1) tbs self")
  show ?case
  proof (cases r1)
    case (Inl e)
    then show ?thesis using one entry by simp
  next
    case (Inr q)
    obtain self1 tbs1 where q: "q = (self1, tbs1)" by (cases q)
    have one': "resolve_one rank (k1, s1, o1, t1) tbs self = (Inr (self1, tbs1), tr1)"
      using one Inr q by simp
    obtain r' tr' where rest: "resolve rank reqs tbs1 self1 = (r', tr')"
      by (cases "resolve rank reqs tbs1 self1")
    have whole: "resolve rank (entry # reqs) tbs self = (r', tr1 @ tr')"
      using entry one' rest by simp
    have p1: "params self1 = p" using resolve_one_params [OF one'] Cons.prems(4) by simp
    show ?thesis
    proof (cases "(key, sec, opt, ty) = entry")
      case True
      then have same: "k1 = key" "s1 = sec" "o1 = opt" "t1 = ty" using entry by simp_all
      from resolve_one_sets(1) [OF assms(3,4) Cons.prems(3), of rank sec opt tbs self1 tbs1 tr1]
        one' same Cons.prems(4)
      obtain v where v: "fst (lookup_typed p sec opt ty None) = Inr (Some v)"
        "attrs self1 key = Some v" "Lookup (''get'' @ ty) sec opt \<in> set tr1" by auto
      have "\<And>self'. r' = Inr self' \<Longrightarrow> attrs self' key = Some v"
        using rest v(2) resolve_kept by blast
      then show ?thesis using whole v by auto
    next
      case False
      then have mem: "(key, sec, opt, ty) \<in> set reqs" using Cons.prems(2) by auto
      have "k1 \<noteq> key" using Cons.prems(1) mem entry by force
      then have none: "attrs self1 key = None"
        using resolve_one_absent [OF one', of key] Cons.prems(3) by simp
      have d: "distinct (map fst reqs)" using Cons.prems(1) by simp
      from Cons.IH [OF d mem none p1, of tbs1] rest whole show ?thesis by auto
    qed
  qed
qed

subsection \<open>The structure of a construction\<close>

lemma check_empty_trace: "Lookup g s o' \<notin> set (snd (check_empty cls rank e b))"
  by (auto simp: check_empty_def local_var_def percent_empty_message split: option.splits)

lemma check_extension_trace: "Lookup g s o' \<notin> set (snd (check_extension cls rank ext))"
  by (auto simp: check_extension_def percent_extension_message split: option.splits)

lemma log_created_trace: "log_created cls rank self = Inr tr \<Longrightarrow> Lookup g s o' \<notin> set tr"
  by (auto simp: log_created_def percent_created_message split: if_splits)

lemma init_Inr:
  assumes "init cls rank fn prm e kwargs = (Inr self, tr)"
  shows "\<exists>self1 self2 tr2 tr3.
           set_kwargs (new_self cls fn prm e) kwargs = Inr self1
         \<and> resolve rank requiered_values None self1 = (Inr self2, tr2)
         \<and> self = clear_caches self2 \<and> tr = tr2 @ tr3"
proof -
  obtain r0 t0 where ce: "check_empty cls rank e None = (r0, t0)"
    by (cases "check_empty cls rank e None")
  obtain f x where sp: "splitext fn = (f, x)" by (cases "splitext fn")
  obtain r1 t1 where cx: "check_extension cls rank x = (r1, t1)"
    by (cases "check_extension cls rank x")
  from assms ce have r0: "r0 = Inr ()" "t0 = []"
    by (auto simp: init_def check_empty_def split: if_splits sum.splits)
  from assms ce r0 sp cx have r1: "r1 = Inr ()" 
    by (auto simp: init_def split: sum.splits)
  then have t1: "t1 = []" using cx check_extension_rejects [of cls rank x] by (cases "t1 = []") auto
  from assms ce r0 sp cx r1 t1 obtain self1
    where k: "set_kwargs (new_self cls fn prm e) kwargs = Inr self1"
    by (auto simp: init_def split: sum.splits)
  obtain r2 tr2 where rs: "resolve rank requiered_values None self1 = (r2, tr2)"
    by (cases "resolve rank requiered_values None self1")
  from assms ce r0 sp cx r1 t1 k rs obtain self2 where r2: "r2 = Inr self2"
    by (auto simp: init_def split: sum.splits)
  from assms ce r0 sp cx r1 t1 k rs r2 obtain tr3
    where "log_created cls rank (clear_caches self2) = Inr tr3"
      and "self = clear_caches self2" and "tr = tr2 @ tr3"
    by (auto simp: init_def Let_def get_info_def split: sum.splits)
  then show ?thesis using k rs r2 by blast
qed

lemma init_lookup:
  assumes "Lookup g s o' \<in> set (snd (init cls rank fn prm e kwargs))"
  shows "\<exists>self1 r tr2. set_kwargs (new_self cls fn prm e) kwargs = Inr self1
           \<and> resolve rank requiered_values None self1 = (r, tr2) \<and> Lookup g s o' \<in> set tr2"
proof -
  obtain r0 t0 where ce: "check_empty cls rank e None = (r0, t0)"
    by (cases "check_empty cls rank e None")
  obtain f x where sp: "splitext fn = (f, x)" by (cases "splitext fn")
  obtain r1 t1 where cx: "check_extension cls rank x = (r1, t1)"
    by (cases "check_extension cls rank x")
  have n0: "Lookup g s o' \<notin> set t0" using check_empty_trace [of g s o' cls rank e None] ce by simp
  have n1: "Lookup g s o' \<notin> set t1" using check_extension_trace [of g s o' cls rank x] cx by simp
  show ?thesis
  proof (cases r0)
    case (Inl a)
    then show ?thesis using assms ce n0 by (simp add: init_def Let_def)
  next
    case (Inr u)
    note r0 = this
    show ?thesis
    proof (cases r1)
      case (Inl a)
      then show ?thesis using assms ce r0 sp cx n0 n1 by (simp add: init_def Let_def)
    next
      case (Inr u1)
      note r1 = this
      show ?thesis
      proof (cases "set_kwargs (new_self cls fn prm e) kwargs")
        case (Inl a)
        then show ?thesis using assms ce r0 sp cx r1 n0 n1 by (simp add: init_def Let_def)
      next
        case (Inr self1)
        note k = this
        obtain r2 tr2 where rs: "resolve rank requiered_values None self1 = (r2, tr2)"
          by (cases "resolve rank requiered_values None self1")
        have "Lookup g s o' \<in> set tr2"
        proof (cases r2)
          case (Inl a)
          then show ?thesis using assms ce r0 sp cx r1 k rs n0 n1 by (simp add: init_def Let_def)
        next
          case (Inr self2)
          show ?thesis
          proof (cases "log_created cls rank (clear_caches self2)")
            case (Inl a)
            then show ?thesis using assms ce r0 sp cx r1 k rs Inr n0 n1 by (simp add: init_def Let_def)
          next
            case (Inr tr3)
            then have "Lookup g s o' \<notin> set tr3" by (rule log_created_trace)
            then show ?thesis
              using assms ce r0 sp cx r1 k rs \<open>r2 = Inr self2\<close> Inr n0 n1
              by (simp add: init_def Let_def)
          qed
        qed
        then show ?thesis using k rs by blast
      qed
    qed
  qed
qed

lemma new_self_attrs: "attrs (new_self cls fn prm e) k = None" "params (new_self cls fn prm e) = prm"
  by (simp_all add: new_self_def)

lemma clear_caches_fields:
  "attrs (clear_caches self) = attrs self" "p_N_t (clear_caches self) = PNone"
  "p_template_shift (clear_caches self) = PNone"
  by (simp_all add: clear_caches_def)

lemma requiered_values_distinct: "distinct (map fst requiered_values)"
  by (simp add: requiered_values_def)

lemma requiered_values_entry:
  assumes "(key, sec, opt, ty) \<in> set requiered_values"
  shows "ty \<in> {''int'', ''float''}" "key \<in> {''rate'', ''N_e'', ''N_tot''}"
    and "(k, sec, opt, t) \<in> set requiered_values \<Longrightarrow> k = key"
  using assms by (auto simp: requiered_values_def)

text \<open>
  C7. Let \<open>key\<close> be one of \<open>rate\<close>, \<open>N_e\<close>, \<open>N_tot\<close>, with its section, its option and its
  type, and let the overrides be a dictionary (distinct keys) that rebinds none of the names
  of the class and of its constructor. If an override sets \<open>key\<close>, the resolver is never
  asked for the option, and an instance that is constructed holds the value of the override.
  If no override sets it, the value is that of the typed lookup, \<open>getfloat\<close> for
  \<open>float\<close> and \<open>numpy.int64\<close> of \<open>getint\<close> for \<open>int\<close>: when the lookup fails the
  construction fails, and an instance that is constructed holds the value looked up, the
  lookup being in the trace. There is no default.
\<close>

theorem core_fields_resolution:
  assumes "distinct (map fst kwargs)" and "fst ` set kwargs \<inter> set reserved = {}"
    and "(key, sec, opt, ty) \<in> set requiered_values"
  shows "(\<forall>v. map_of kwargs key = Some v \<longrightarrow>
            (\<forall>g. Lookup g sec opt \<notin> set (snd (init cls rank fn prm e kwargs)))
          \<and> (\<forall>self. fst (init cls rank fn prm e kwargs) = Inr self \<longrightarrow> attrs self key = Some v))
       \<and> (map_of kwargs key = None \<longrightarrow>
            (\<forall>err. fst (lookup_typed prm sec opt ty None) = Inl err \<longrightarrow>
                   isl (fst (init cls rank fn prm e kwargs)))
          \<and> (\<forall>self. fst (init cls rank fn prm e kwargs) = Inr self \<longrightarrow>
                 (\<exists>x. fst (lookup_typed prm sec opt ty None) = Inr (Some x)
                    \<and> attrs self key = Some x
                    \<and> Lookup (''get'' @ ty) sec opt \<in> set (snd (init cls rank fn prm e kwargs)))))"
proof (intro conjI allI impI)
  fix v g
  assume set: "map_of kwargs key = Some v"
  show "Lookup g sec opt \<notin> set (snd (init cls rank fn prm e kwargs))"
  proof
    assume "Lookup g sec opt \<in> set (snd (init cls rank fn prm e kwargs))"
    from init_lookup [OF this] obtain self1 r tr2
      where k: "set_kwargs (new_self cls fn prm e) kwargs = Inr self1"
        and rs: "resolve rank requiered_values None self1 = (r, tr2)"
        and l: "Lookup g sec opt \<in> set tr2" by blast
    from resolve_lookup [OF rs l] obtain k' t'
      where k': "(k', sec, opt, t') \<in> set requiered_values" "attrs self1 k' = None" by blast
    have "k' = key" using requiered_values_entry(3) [OF assms(3) k'(1)] .
    moreover have "attrs self1 key = Some v"
      using set_kwargs_core [OF k assms(1) requiered_values_entry(2) [OF assms(3)]] set by simp
    ultimately show False using k'(2) by simp
  qed
next
  fix v self
  assume set: "map_of kwargs key = Some v"
    and ok: "fst (init cls rank fn prm e kwargs) = Inr self"
  from ok obtain tr where "init cls rank fn prm e kwargs = (Inr self, tr)"
    by (cases "init cls rank fn prm e kwargs") simp
  from init_Inr [OF this] obtain self1 self2 tr2
    where k: "set_kwargs (new_self cls fn prm e) kwargs = Inr self1"
      and rs: "resolve rank requiered_values None self1 = (Inr self2, tr2)"
      and self: "self = clear_caches self2" by blast
  have "attrs self1 key = Some v"
    using set_kwargs_core [OF k assms(1) requiered_values_entry(2) [OF assms(3)]] set by simp
  then have "attrs self2 key = Some v" using rs resolve_kept by blast
  then show "attrs self key = Some v" using self by (simp add: clear_caches_fields)
next
  fix err
  assume unset: "map_of kwargs key = None"
    and bad: "fst (lookup_typed prm sec opt ty None) = Inl err"
  show "isl (fst (init cls rank fn prm e kwargs))"
  proof (rule ccontr)
    assume "\<not> isl (fst (init cls rank fn prm e kwargs))"
    then obtain self tr where "init cls rank fn prm e kwargs = (Inr self, tr)"
      by (cases "init cls rank fn prm e kwargs"; cases "fst (init cls rank fn prm e kwargs)") auto
    from init_Inr [OF this] obtain self1 self2 tr2
      where k: "set_kwargs (new_self cls fn prm e) kwargs = Inr self1"
        and rs: "resolve rank requiered_values None self1 = (Inr self2, tr2)" by blast
    have none: "attrs self1 key = None"
      using set_kwargs_core [OF k assms(1) requiered_values_entry(2) [OF assms(3)]] unset
      by (simp add: new_self_attrs)
    have p: "params self1 = prm" using set_kwargs_params [OF k] by (simp add: new_self_attrs)
    from resolve_sets [OF requiered_values_distinct assms(3) requiered_values_entry(1,2) [OF assms(3)]
        none p, of rank None] bad rs
    show False by simp
  qed
next
  fix self
  assume unset: "map_of kwargs key = None"
    and ok: "fst (init cls rank fn prm e kwargs) = Inr self"
  from ok obtain tr where i: "init cls rank fn prm e kwargs = (Inr self, tr)"
    by (cases "init cls rank fn prm e kwargs") simp
  from init_Inr [OF this] obtain self1 self2 tr2 tr3
    where k: "set_kwargs (new_self cls fn prm e) kwargs = Inr self1"
      and rs: "resolve rank requiered_values None self1 = (Inr self2, tr2)"
      and self: "self = clear_caches self2" and tr: "tr = tr2 @ tr3" by blast
  have none: "attrs self1 key = None"
    using set_kwargs_core [OF k assms(1) requiered_values_entry(2) [OF assms(3)]] unset
    by (simp add: new_self_attrs)
  have p: "params self1 = prm" using set_kwargs_params [OF k] by (simp add: new_self_attrs)
  from resolve_sets [OF requiered_values_distinct assms(3) requiered_values_entry(1,2) [OF assms(3)]
      none p, of rank None] rs
  obtain x where "fst (lookup_typed prm sec opt ty None) = Inr (Some x)"
    "attrs self2 key = Some x" "Lookup (''get'' @ ty) sec opt \<in> set tr2" by blast
  then show "\<exists>x. fst (lookup_typed prm sec opt ty None) = Inr (Some x)
                    \<and> attrs self key = Some x
                    \<and> Lookup (''get'' @ ty) sec opt \<in> set (snd (init cls rank fn prm e kwargs))"
    using self tr i by (auto simp: clear_caches_fields)
qed

text \<open>
  With the override \<open>rate = 30000\<close> on the resolver of the instances, the sampling rate is
  not looked up and the instance holds 30000 for \<open>rate\<close> and the configured 4 for \<open>N_e\<close>;
  on the resolver without entries the construction fails.
\<close>

theorem core_fields_resolution_witness:
  "distinct (map fst [(''rate'', PFloat 30000)])
   \<and> fst ` set [(''rate'', PFloat 30000)] \<inter> set reserved = {}
   \<and> (''rate'', ''data'', ''sampling_rate'', ''float'') \<in> set requiered_values
   \<and> (''N_e'', ''data'', ''N_e'', ''int'') \<in> set requiered_values
   \<and> map_of [(''rate'', PFloat 30000)] ''rate'' = Some (PFloat 30000)
   \<and> map_of [(''rate'', PFloat 30000)] ''N_e'' = None
   \<and> fst (lookup_typed empty_params ''data'' ''N_e'' ''int'' None)
       = Inl (NoOptionError ''N_e'' ''data'')
   \<and> \<not> isl (fst (init demo_format 1 ''rec.dat'' (demo_params 1) False [(''rate'', PFloat 30000)]))
   \<and> Lookup ''getfloat'' ''data'' ''sampling_rate''
       \<notin> set (snd (init demo_format 1 ''rec.dat'' (demo_params 1) False [(''rate'', PFloat 30000)]))
   \<and> attrs (projr (fst (init demo_format 1 ''rec.dat'' (demo_params 1) False
                           [(''rate'', PFloat 30000)]))) ''rate'' = Some (PFloat 30000)
   \<and> attrs (projr (fst (init demo_format 1 ''rec.dat'' (demo_params 1) False
                           [(''rate'', PFloat 30000)]))) ''N_e'' = Some (PInt 4)
   \<and> isl (fst (init demo_format 1 ''rec.dat'' empty_params False [(''rate'', PFloat 30000)]))"
proof -
  let ?kw = "[(''rate'', PFloat 30000)]"
  let ?I = "init demo_format 1 ''rec.dat'' (demo_params 1) False ?kw"
  have h1: "distinct (map fst ?kw)" by simp
  have h2: "fst ` set ?kw \<inter> set reserved = {}" by (simp add: reserved_def)
  have h3: "(''rate'', ''data'', ''sampling_rate'', ''float'') \<in> set requiered_values"
    and h4: "(''N_e'', ''data'', ''N_e'', ''int'') \<in> set requiered_values"
    by (simp_all add: requiered_values_def)
  have m1: "map_of ?kw ''rate'' = Some (PFloat 30000)" and m2: "map_of ?kw ''N_e'' = None"
    by simp_all
  have bad: "fst (lookup_typed empty_params ''data'' ''N_e'' ''int'' None)
       = Inl (NoOptionError ''N_e'' ''data'')"
    by (simp add: lookup_typed_int empty_params_def)
  have ok: "\<exists>self. fst ?I = Inr self"
    by (simp add: init_def check_empty_def check_extension_def demo_format_def is_master_def
        splitext_def rfind_def skip_dots.simps upper_def upper_char_def new_self_def
        requiered_values_def resolve_one_unfold lookup_typed_int lookup_typed_float
        demo_params_def numpy_int64_def int64_range_def setattr_def properties_def
        clear_caches_def log_created_def get_info_def Let_def)
  then obtain self where self: "fst ?I = Inr self" by blast
  have good: "fst (lookup_typed (demo_params 1) ''data'' ''N_e'' ''int'' None) = Inr (Some (PInt 4))"
    by (simp add: lookup_typed_int demo_params_def numpy_int64_def int64_range_def)
  from core_fields_resolution [OF h1 h2 h3, of demo_format 1 "''rec.dat''" "demo_params 1" False]
    m1 self
  have 1: "Lookup ''getfloat'' ''data'' ''sampling_rate'' \<notin> set (snd ?I)"
    and 2: "attrs (projr (fst ?I)) ''rate'' = Some (PFloat 30000)" by auto
  from core_fields_resolution [OF h1 h2 h4, of demo_format 1 "''rec.dat''" "demo_params 1" False]
    m2 self good
  have 3: "attrs (projr (fst ?I)) ''N_e'' = Some (PInt 4)" by auto
  from core_fields_resolution [OF h1 h2 h4, of demo_format 1 "''rec.dat''" empty_params False]
    m2 bad
  have 4: "isl (fst (init demo_format 1 ''rec.dat'' empty_params False ?kw))" by blast
  from self have 5: "\<not> isl (fst ?I)" by simp
  from h1 h2 h3 h4 m1 m2 bad 1 2 3 4 5 show ?thesis by blast
qed

subsection \<open>Laziness and caching of the window properties\<close>

lemma init_lazy:
  assumes "init cls rank fn prm e kwargs = (Inr self0, tr0)"
  shows "p_N_t self0 = PNone \<and> p_template_shift self0 = PNone
           \<and> (\<forall>g s. Lookup g s ''N_t'' \<notin> set tr0)"
proof -
  from init_Inr [OF assms] obtain self2 where "self0 = clear_caches self2" by blast
  then have "p_N_t self0 = PNone" "p_template_shift self0 = PNone"
    by (simp_all add: clear_caches_fields)
  moreover have "Lookup g s ''N_t'' \<notin> set tr0" for g s
  proof
    assume "Lookup g s ''N_t'' \<in> set tr0"
    then have "Lookup g s ''N_t'' \<in> set (snd (init cls rank fn prm e kwargs))"
      using assms by simp
    from init_lookup [OF this] obtain self1 r tr2
      where "resolve rank requiered_values None self1 = (r, tr2)" "Lookup g s ''N_t'' \<in> set tr2"
      by blast
    from resolve_lookup [OF this] show False by (auto simp: requiered_values_def)
  qed
  ultimately show ?thesis by blast
qed

lemma demo_init:
  "init demo_format 1 ''rec.dat'' (demo_params d) False []
     = (Inr ((demo_file d)\<lparr>shape := (0, 0), max_offset := 0\<rparr>),
        [Lookup ''getfloat'' ''data'' ''sampling_rate'', Lookup ''getint'' ''data'' ''N_e'',
         Lookup ''getint'' ''data'' ''N_total''])"
  by (simp add: init_def check_empty_def check_extension_def demo_format_def is_master_def
      splitext_def rfind_def skip_dots.simps upper_def upper_char_def new_self_def
      requiered_values_def resolve_one_unfold lookup_typed_int lookup_typed_float demo_params_def
      numpy_int64_def int64_range_def setattr_def properties_def clear_caches_def log_created_def
      get_info_def demo_file_def Let_def)

text \<open>
  C4. Once an access to \<open>N_t\<close> has returned a value, every later access returns the same
  value, leaves the instance as it is and calls nothing (the trace is empty), whatever the
  resolver then is; an access to \<open>template_shift\<close> then calls nothing either. Once an
  access to \<open>template_shift\<close> has returned a value, every later access returns the same
  value with an empty trace, whatever the resolver then is. Both are computed on demand:
  the constructor leaves \<open>_N_t\<close> and \<open>_template_shift\<close> unset and looks no window
  duration up.
\<close>

theorem window_properties_cached:
  "(N_t self = (Inr v, self1, tr) \<longrightarrow>
      N_t self1 = (Inr v, self1, [])
      \<and> N_t (self1\<lparr>params := p\<rparr>) = (Inr v, self1\<lparr>params := p\<rparr>, [])
      \<and> (\<exists>r. template_shift self1 = (r, self1, [])))
   \<and> (template_shift self = (Inr w, self2, tr') \<longrightarrow>
      template_shift self2 = (Inr w, self2, [])
      \<and> template_shift (self2\<lparr>params := p\<rparr>) = (Inr w, self2\<lparr>params := p\<rparr>, []))
   \<and> (init cls rank fn prm e kwargs = (Inr self0, tr0) \<longrightarrow>
      p_N_t self0 = PNone \<and> p_template_shift self0 = PNone
      \<and> (\<forall>g s. Lookup g s ''N_t'' \<notin> set tr0))"
proof (intro conjI impI)
  assume a: "N_t self = (Inr v, self1, tr)"
  then have v: "p_N_t self1 \<noteq> PNone" "p_N_t self1 = v" using N_t_result by auto
  then show "N_t self1 = (Inr v, self1, [])" by (simp add: N_t_def)
  from v show "N_t (self1\<lparr>params := p\<rparr>) = (Inr v, self1\<lparr>params := p\<rparr>, [])"
    by (simp add: N_t_def)
  from v show "\<exists>r. template_shift self1 = (r, self1, [])"
    by (simp add: template_shift_def N_t_def split: sum.splits)
next
  assume b: "template_shift self = (Inr w, self2, tr')"
  have c: "p_template_shift self2 \<noteq> PNone \<and> p_template_shift self2 = w
         \<or> p_template_shift self2 = PNone \<and> p_N_t self2 \<noteq> PNone
             \<and> (\<exists>k. shift_of (p_N_t self2) = Inr k \<and> w = PInt k)"
  proof (cases "p_template_shift self = PNone")
    case False
    then show ?thesis using b by (auto simp: template_shift_def)
  next
    case True
    then obtain v k where n: "N_t self = (Inr v, self2, tr')"
      and k: "shift_of v = Inr k" "w = PInt k"
      using b by (auto simp: template_shift_def split: prod.splits sum.splits)
    from N_t_result [OF n] True k show ?thesis by auto
  qed
  then show "template_shift self2 = (Inr w, self2, [])"
    by (auto simp: template_shift_def N_t_def)
  from c show "template_shift (self2\<lparr>params := p\<rparr>) = (Inr w, self2\<lparr>params := p\<rparr>, [])"
    by (auto simp: template_shift_def N_t_def)
next
  assume "init cls rank fn prm e kwargs = (Inr self0, tr0)"
  from init_lazy [OF this]
  show "p_N_t self0 = PNone" "p_template_shift self0 = PNone"
    "\<forall>g s. Lookup g s ''N_t'' \<notin> set tr0" by simp_all
qed

text \<open>
  The instance at 20 kHz and 1 ms: the first accesses look the duration up and give 21 and
  10, the second ones give the same with an empty trace; the constructed instance has no
  window length yet.
\<close>

theorem window_properties_cached_witness:
  "N_t (demo_file 1) = (Inr (PInt 21), (demo_file 1)\<lparr>p_N_t := PInt 21\<rparr>,
     [Lookup ''getfloat'' ''detection'' ''N_t'', Lookup ''getfloat'' ''data'' ''N_t''])
   \<and> N_t ((demo_file 1)\<lparr>p_N_t := PInt 21\<rparr>)
       = (Inr (PInt 21), (demo_file 1)\<lparr>p_N_t := PInt 21\<rparr>, [])
   \<and> template_shift (demo_file 1) = (Inr (PInt 10), (demo_file 1)\<lparr>p_N_t := PInt 21\<rparr>,
       [Lookup ''getfloat'' ''detection'' ''N_t'', Lookup ''getfloat'' ''data'' ''N_t''])
   \<and> template_shift ((demo_file 1)\<lparr>p_N_t := PInt 21\<rparr>)
       = (Inr (PInt 10), (demo_file 1)\<lparr>p_N_t := PInt 21\<rparr>, [])
   \<and> fst (init demo_format 1 ''rec.dat'' (demo_params 1) False [])
       = Inr ((demo_file 1)\<lparr>shape := (0, 0), max_offset := 0\<rparr>)
   \<and> p_N_t ((demo_file 1)\<lparr>shape := (0, 0), max_offset := 0\<rparr>) = PNone"
proof -
  note n = demo_N_t
  have t: "template_shift (demo_file 1) = (Inr (PInt 10), (demo_file 1)\<lparr>p_N_t := PInt 21\<rparr>,
       [Lookup ''getfloat'' ''detection'' ''N_t'', Lookup ''getfloat'' ''data'' ''N_t''])"
    by (simp add: template_shift_def n) (simp add: demo_file_def)
  note i = demo_init [of 1]
  from window_properties_cached [of "demo_file 1" "PInt 21" "(demo_file 1)\<lparr>p_N_t := PInt 21\<rparr>"
      "[Lookup ''getfloat'' ''detection'' ''N_t'', Lookup ''getfloat'' ''data'' ''N_t'']"
      empty_params "PInt 10" "(demo_file 1)\<lparr>p_N_t := PInt 21\<rparr>"
      "[Lookup ''getfloat'' ''detection'' ''N_t'', Lookup ''getfloat'' ''data'' ''N_t'']"
      demo_format 1 "''rec.dat''" "demo_params 1" False "[]"
      "(demo_file 1)\<lparr>shape := (0, 0), max_offset := 0\<rparr>"
      "[Lookup ''getfloat'' ''data'' ''sampling_rate'', Lookup ''getint'' ''data'' ''N_e'',
         Lookup ''getint'' ''data'' ''N_total'']"] n t i
  show ?thesis by simp
qed

subsection \<open>Safety time\<close>




subsection \<open>Snippets\<close>

text \<open>
  C8. For every backend, \<open>get_snippet(time, length, nodes)\<close> is the result of the
  backend's \<open>get_data\<close> on the chunk index 0, the chunk size \<open>length\<close>, the padding
  \<open>(time, time)\<close> and the same nodes; with the \<open>get_data\<close> of the base class it is
  \<open>None\<close>.
\<close>

theorem get_snippet_is_get_data:
  "get_snippet backend_get_data self time len nodes
     = backend_get_data self 0 (Some len) (time, time) nodes
   \<and> get_snippet get_data self time len nodes = PNone"
  by (simp add: get_snippet_def get_data_def)

end
